theory Spec2Isabelle
  imports Complex_Main "HOL-Library.Sublist"
begin

section \<open>Data pipeline of \<open>utils/datasets.py\<close>\<close>

text \<open>
  Tensors are modelled as nested lists. An image is a list of channels, a channel a list
  of rows, a row a list of pixel values (channels \<times> height \<times> width, as
  \<open>ToTensor\<close> produces it). Python floats are modelled as exact rationals, so every
  statement below is about exact arithmetic and says nothing about rounding.
\<close>

type_synonym image = "rat list list list"

datatype error =
  TypeError | ValueError | RuntimeError | FileNotFoundError | ZeroDivisionError | IndexError

subsection \<open>Shapes\<close>

definition img_h :: "image \<Rightarrow> nat" where
  "img_h img = (case img of [] \<Rightarrow> 0 | ch # _ \<Rightarrow> length ch)"

definition img_w :: "image \<Rightarrow> nat" where
  "img_w img = (case img of [] \<Rightarrow> 0 | ch # _ \<Rightarrow> (case ch of [] \<Rightarrow> 0 | r # _ \<Rightarrow> length r))"

text \<open>\<open>has_shape c h w img\<close>: the nested list is a rectangular \<open>c \<times> h \<times> w\<close> block
  with no empty dimension, which is what decoding an image file gives.\<close>

definition has_shape :: "nat \<Rightarrow> nat \<Rightarrow> nat \<Rightarrow> image \<Rightarrow> bool" where
  "has_shape c h w img =
     (0 < c \<and> 0 < h \<and> 0 < w \<and> map (map length) img = replicate c (replicate h w))"

subsection \<open>\<open>pad_to_square\<close>\<close>

text \<open>\<open>F.pad(img, [l, r, t, b], mode='constant', value=v)\<close>: the last dimension grows by
  \<open>l\<close> on the left and \<open>r\<close> on the right, the one before it by \<open>t\<close> rows above and
  \<open>b\<close> rows below.\<close>

definition F_pad :: "image \<Rightarrow> nat list \<Rightarrow> rat \<Rightarrow> image" where
  "F_pad img pad v =
     (let l = pad ! 0; r = pad ! 1; t = pad ! 2; b = pad ! 3; w = img_w img
      in map (\<lambda>ch. replicate t (replicate (l + w + r) v)
                    @ map (\<lambda>row. replicate l v @ row @ replicate r v) ch
                    @ replicate b (replicate (l + w + r) v)) img)"

definition pad_to_square :: "image \<Rightarrow> rat \<Rightarrow> image \<times> nat list" where
  "pad_to_square img pad_value =
     (let h = img_h img; w = img_w img;
          difference = nat \<bar>int h - int w\<bar>;
          pad = (if h \<le> w
                 then [0, 0, difference div 2, difference - difference div 2]
                 else [difference div 2, difference - difference div 2, 0, 0])
      in (F_pad img pad pad_value, pad))"

subsection \<open>\<open>horisontal_flip\<close>\<close>

text \<open>
  A label tensor has a fixed number of columns in the source: \<open>boxes\<close> is
  \<open>reshape(-1, 5)\<close> and \<open>targets\<close> is \<open>torch.zeros((len(boxes), 6))\<close>. A row is
  therefore a record of its columns, named by column index, and a tensor a list of rows.
  The annotation set of an item is \<open>None\<close> or such a tensor (possibly with no row).
\<close>

record box =
  b0 :: rat
  b1 :: rat
  b2 :: rat
  b3 :: rat
  b4 :: rat

record target =
  t0 :: rat
  t1 :: rat
  t2 :: rat
  t3 :: rat
  t4 :: rat
  t5 :: rat

text \<open>\<open>torch.flip(images, [-1])\<close> reverses the last dimension. \<open>targets[:, 2]\<close> on
  \<open>None\<close> raises \<open>TypeError\<close> ('NoneType' object is not subscriptable).\<close>

definition horisontal_flip ::
  "image \<Rightarrow> target list option \<Rightarrow> error + (image \<times> target list option)" where
  "horisontal_flip images targets =
     (let images' = map (map rev) images
      in case targets of
           None \<Rightarrow> Inl TypeError
         | Some ts \<Rightarrow> Inr (images', Some (map (\<lambda>r. r\<lparr>t2 := 1 - t2 r\<rparr>) ts)))"

subsection \<open>\<open>resize\<close>\<close>

text \<open>Bilinear interpolation with \<open>align_corners=True\<close>: output index \<open>i\<close> of \<open>S\<close>
  samples the input of length \<open>L\<close> at \<open>i * (L - 1) / (S - 1)\<close> (at 0 when \<open>S = 1\<close>),
  blending the two neighbouring input cells. \<open>F.interpolate\<close> refuses an empty input and
  an output size that is not positive.\<close>

definition src_index :: "nat \<Rightarrow> nat \<Rightarrow> nat \<Rightarrow> rat" where
  "src_index L S i = (if S \<le> 1 then 0 else of_nat i * (of_nat (L - 1) / of_nat (S - 1)))"

definition bilinear :: "rat list list \<Rightarrow> nat \<Rightarrow> nat \<Rightarrow> nat \<Rightarrow> nat \<Rightarrow> nat \<Rightarrow> rat" where
  "bilinear ch H W S y x =
     (let sy = src_index H S y; y0 = nat \<lfloor>sy\<rfloor>; y1 = min (y0 + 1) (H - 1);
          ly = sy - of_nat y0;
          sx = src_index W S x; x0 = nat \<lfloor>sx\<rfloor>; x1 = min (x0 + 1) (W - 1);
          lx = sx - of_nat x0
      in (1 - ly) * ((1 - lx) * (ch ! y0 ! x0) + lx * (ch ! y0 ! x1))
         + ly * ((1 - lx) * (ch ! y1 ! x0) + lx * (ch ! y1 ! x1)))"

definition resize :: "image \<Rightarrow> nat \<Rightarrow> error + image" where
  "resize img sz =
     (if sz = 0 \<or> length img = 0 \<or> img_h img = 0 \<or> img_w img = 0
      then Inl RuntimeError
      else Inr (map (\<lambda>ch. map (\<lambda>y. map (\<lambda>x. bilinear ch (img_h img) (img_w img) sz y x)
                                          [0..<sz]) [0..<sz]) img))"

subsection \<open>Files and strings\<close>

text \<open>
  The file system and the libraries that read it are a parameter: \<open>image_file\<close> is what
  \<open>ToTensor()(Image.open(path).convert('RGB'))\<close> gives (\<open>None\<close>: the file cannot be
  opened), \<open>label_file\<close> the numeric rows of a label file (\<open>None\<close>:
  \<open>os.path.exists\<close> is false), \<open>color_jitter\<close> the pixel transform of one
  \<open>ColorJitter\<close> application.
\<close>

record world =
  image_file :: "string \<Rightarrow> image option"
  label_file :: "string \<Rightarrow> rat list list option"
  color_jitter :: "image \<Rightarrow> image"

text \<open>A character of a \<open>string\<close> stands for a code point below 256, so the paths of
  the model are Latin-1 strings. \<open>str.replace(old, new)\<close> for a non-empty \<open>old\<close>:
  leftmost occurrences, not overlapping. \<open>str.rstrip()\<close> drops the trailing characters
  for which \<open>str.isspace\<close> holds: among the code points below 256 these are 9 to 13,
  28 to 32, 133 (U+0085) and 160 (U+00A0).\<close>

fun str_replace :: "string \<Rightarrow> string \<Rightarrow> string \<Rightarrow> string" where
  "str_replace old new [] = []"
| "str_replace old new (c # cs) =
     (if old \<noteq> [] \<and> prefix old (c # cs)
      then new @ str_replace old new (drop (length old) (c # cs))
      else c # str_replace old new cs)"

definition is_space :: "char \<Rightarrow> bool" where
  "is_space c = ((of_char c :: nat) \<in> {9, 10, 11, 12, 13, 28, 29, 30, 31, 32, 133, 160})"

definition rstrip :: "string \<Rightarrow> string" where
  "rstrip s = rev (dropWhile is_space (rev s))"

subsection \<open>\<open>ImageFolder\<close>\<close>

record image_folder =
  files :: "string list"
  folder_img_size :: nat

definition ImageFolder_getitem :: "world \<Rightarrow> image_folder \<Rightarrow> int \<Rightarrow> error + (string \<times> image)" where
  "ImageFolder_getitem wd self index =
     (if length (files self) = 0 then Inl ZeroDivisionError
      else let img_path = files self ! nat (index mod int (length (files self)))
           in case image_file wd img_path of
                None \<Rightarrow> Inl FileNotFoundError
              | Some img0 \<Rightarrow>
                  (let (img, _) = pad_to_square img0 0
                   in case resize img (folder_img_size self) of
                        Inl e \<Rightarrow> Inl e
                      | Inr img' \<Rightarrow> Inr (img_path, img')))"

definition ImageFolder_len :: "image_folder \<Rightarrow> nat" where
  "ImageFolder_len self = length (files self)"

subsection \<open>\<open>ListDataset\<close>\<close>

record list_dataset =
  img_files :: "string list"
  label_files :: "string list"
  img_size :: nat
  max_objects :: nat
  augment :: bool
  multiscale :: bool
  normalized_labels :: bool
  batch_count :: nat

text \<open>\<open>__init__\<close>; \<open>lines\<close> is what \<open>file.readlines()\<close> returns for the list file.\<close>

definition ListDataset_init :: "string list \<Rightarrow> nat \<Rightarrow> bool \<Rightarrow> bool \<Rightarrow> bool \<Rightarrow> list_dataset" where
  "ListDataset_init lines sz aug multi normalized =
     \<lparr>img_files = lines,
      label_files = map (\<lambda>path. str_replace ''JPEGImages'' ''labels''
                                  (str_replace ''.jpg'' ''.txt''
                                    (str_replace ''.png'' ''.txt''
                                      (str_replace ''images'' ''labels'' path)))) lines,
      img_size = sz,
      max_objects = 100,
      augment = aug,
      multiscale = multi,
      normalized_labels = normalized,
      batch_count = 0\<rparr>"

text \<open>\<open>np.loadtxt\<close> skips blank lines, raises \<open>ValueError\<close> when the rows differ in
  length, and returns the numbers; \<open>reshape(-1, 5)\<close> cuts the flattened numbers into rows
  of five and raises \<open>ValueError\<close> when their count is not a multiple of five.\<close>

definition np_loadtxt :: "rat list list \<Rightarrow> error + rat list" where
  "np_loadtxt lines =
     (let rows = filter (\<lambda>r. r \<noteq> []) lines
      in if list_ex (\<lambda>r. length r \<noteq> length (hd rows)) rows then Inl ValueError
         else Inr (concat rows))"

fun reshape5 :: "rat list \<Rightarrow> error + box list" where
  "reshape5 [] = Inr []"
| "reshape5 (a # b # c # d # e # rest) =
     (case reshape5 rest of
        Inl err \<Rightarrow> Inl err
      | Inr rows \<Rightarrow> Inr (\<lparr>b0 = a, b1 = b, b2 = c, b3 = d, b4 = e\<rparr> # rows))"
| "reshape5 _ = Inl ValueError"

text \<open>Lines 112 to 127 of the source on one row of \<open>boxes\<close>.\<close>

definition remap_box :: "nat \<Rightarrow> nat \<Rightarrow> nat list \<Rightarrow> nat \<Rightarrow> nat \<Rightarrow> box \<Rightarrow> box" where
  "remap_box h_factor w_factor pad padded_h padded_w bx =
     (let x1 = of_nat w_factor * (b1 bx - b3 bx / 2);
          y1 = of_nat h_factor * (b2 bx - b4 bx / 2);
          x2 = of_nat w_factor * (b1 bx + b3 bx / 2);
          y2 = of_nat h_factor * (b2 bx + b4 bx / 2);
          x1 = x1 + of_nat (pad ! 0);
          y1 = y1 + of_nat (pad ! 2);
          x2 = x2 + of_nat (pad ! 1);
          y2 = y2 + of_nat (pad ! 3)
      in bx\<lparr>b1 := ((x1 + x2) / 2) / of_nat padded_w,
             b2 := ((y1 + y2) / 2) / of_nat padded_h,
             b3 := b3 bx * (of_nat w_factor / of_nat padded_w),
             b4 := b4 bx * (of_nat h_factor / of_nat padded_h)\<rparr>)"

text \<open>\<open>targets = torch.zeros((len(boxes), 6)); targets[:, 1:] = boxes\<close>.\<close>

definition to_target :: "box \<Rightarrow> target" where
  "to_target bx = \<lparr>t0 = 0, t1 = b0 bx, t2 = b1 bx, t3 = b2 bx, t4 = b3 bx, t5 = b4 bx\<rparr>"

text \<open>Lines 109 to 130: the body of \<open>if os.path.exists(label_path)\<close>. The quotients
  \<open>w_factor / padded_w\<close> and \<open>h_factor / padded_h\<close> are Python divisions of numbers and
  raise on a zero divisor.\<close>

definition load_targets ::
  "rat list list \<Rightarrow> nat \<Rightarrow> nat \<Rightarrow> nat list \<Rightarrow> nat \<Rightarrow> nat \<Rightarrow> error + target list" where
  "load_targets lines h_factor w_factor pad padded_h padded_w =
     (case np_loadtxt lines of
        Inl e \<Rightarrow> Inl e
      | Inr flat \<Rightarrow>
          (case reshape5 flat of
             Inl e \<Rightarrow> Inl e
           | Inr boxes \<Rightarrow>
               if padded_w = 0 \<or> padded_h = 0 then Inl ZeroDivisionError
               else Inr (map (\<lambda>bx. to_target (remap_box h_factor w_factor pad padded_h padded_w bx))
                          boxes)))"

type_synonym item = "string \<times> image \<times> target list option"

text \<open>\<open>__getitem__\<close>; \<open>u\<close> is the value of \<open>np.random.random()\<close>, read only when
  \<open>augment\<close> is set.\<close>

definition ListDataset_getitem :: "world \<Rightarrow> list_dataset \<Rightarrow> rat \<Rightarrow> int \<Rightarrow> error + item" where
  "ListDataset_getitem wd self u index =
     (if length (img_files self) = 0 then Inl ZeroDivisionError
      else
        let k = nat (index mod int (length (img_files self)));
            img_path = rstrip (img_files self ! k)
        in case image_file wd img_path of
             None \<Rightarrow> Inl FileNotFoundError
           | Some raw \<Rightarrow>
               (let img0 = (if augment self then color_jitter wd raw else raw);
                    h = img_h img0; w = img_w img0;
                    (h_factor, w_factor) = (if normalized_labels self then (h, w) else (1, 1));
                    (img, pad) = pad_to_square img0 0;
                    padded_h = img_h img; padded_w = img_w img
                in if length (label_files self) \<le> k then Inl IndexError
                   else
                     let label_path = rstrip (label_files self ! k)
                     in case (case label_file wd label_path of
                                None \<Rightarrow> Inr None
                              | Some lines \<Rightarrow>
                                  (case load_targets lines h_factor w_factor pad padded_h padded_w of
                                     Inl e \<Rightarrow> Inl e
                                   | Inr ts \<Rightarrow> Inr (Some ts))) of
                          Inl e \<Rightarrow> Inl e
                        | Inr targets \<Rightarrow>
                            if augment self \<and> u < 1 / 2
                            then (case horisontal_flip img targets of
                                    Inl e \<Rightarrow> Inl e
                                  | Inr (img', targets') \<Rightarrow> Inr (img_path, img', targets'))
                            else Inr (img_path, img, targets)))"

definition ListDataset_len :: "list_dataset \<Rightarrow> nat" where
  "ListDataset_len self = length (img_files self)"

subsection \<open>\<open>collate_fn\<close>\<close>

text \<open>\<open>range(start, stop, step)\<close> for a positive step, and \<open>random.choice\<close> on a
  non-empty sequence, where \<open>rnd\<close> is the random source's raw draw.\<close>

definition py_range :: "nat \<Rightarrow> nat \<Rightarrow> nat \<Rightarrow> nat list" where
  "py_range start stop step = map (\<lambda>k. start + k * step) [0..<(stop - start + step - 1) div step]"

definition random_choice :: "nat \<Rightarrow> nat list \<Rightarrow> nat" where
  "random_choice rnd xs = xs ! (rnd mod length xs)"

text \<open>
  \<open>torch.cat\<close> of an empty list raises an exception whose class depends on the release
  of the library (\<open>RuntimeError\<close> in torch 2.2, \<open>ValueError\<close> in later releases). That
  class is the parameter \<open>cat_empty\<close> of \<open>torch_cat\<close> and of every function that calls
  it. Tensors of six columns always concatenate. \<open>torch.stack\<close> raises
  \<open>RuntimeError\<close> for no tensor and for tensors of different shapes.
\<close>

definition torch_cat :: "error \<Rightarrow> target list list \<Rightarrow> error + target list" where
  "torch_cat cat_empty ts = (if ts = [] then Inl cat_empty else Inr (concat ts))"

definition shape3 :: "image \<Rightarrow> nat \<times> nat \<times> nat" where
  "shape3 img = (length img, img_h img, img_w img)"

definition torch_stack :: "image list \<Rightarrow> error + image list" where
  "torch_stack ts =
     (if ts = [] then Inl RuntimeError
      else if list_all (\<lambda>t. shape3 t = shape3 (hd ts)) ts then Inr ts
      else Inl RuntimeError)"

text \<open>The list comprehension \<open>[resize(img, self.img_size) for img in imgs]\<close>: the first
  failing \<open>resize\<close> ends it.\<close>

fun resize_all :: "image list \<Rightarrow> nat \<Rightarrow> error + image list" where
  "resize_all [] sz = Inr []"
| "resize_all (img # imgs) sz =
     (case resize img sz of
        Inl e \<Rightarrow> Inl e
      | Inr r \<Rightarrow> (case resize_all imgs sz of Inl e \<Rightarrow> Inl e | Inr rs \<Rightarrow> Inr (r # rs)))"

text \<open>Lines 145 to 155: the \<open>None\<close> placeholders are removed, the rows of the
  \<open>i\<close>-th remaining tensor get \<open>i\<close> in column 0, and the tensors are concatenated.
  The \<open>except RuntimeError\<close> clause turns a \<open>RuntimeError\<close> of \<open>torch.cat\<close> into
  \<open>None\<close>; an exception of any other class leaves the function.\<close>

definition collate_targets :: "error \<Rightarrow> target list option list \<Rightarrow> error + target list option" where
  "collate_targets cat_empty targets =
     (let targets = map the (filter (\<lambda>boxes. boxes \<noteq> None) targets);
          targets = map (\<lambda>(i, boxes). map (\<lambda>r. r\<lparr>t0 := of_nat i\<rparr>) boxes) (enumerate 0 targets)
      in case torch_cat cat_empty targets of
           Inl e \<Rightarrow> (if e = RuntimeError then Inr None else Inl e)
         | Inr t \<Rightarrow> Inr (Some t))"

text \<open>
  \<open>collate_fn\<close> returns its outcome together with the dataset object after the call,
  since \<open>img_size\<close> and \<open>batch_count\<close> are fields it assigns. Unpacking
  \<open>list(zip(*batch))\<close> into three names raises \<open>ValueError\<close> for an empty batch. An
  exception that leaves lines 145 to 155 comes before any assignment; one raised after the
  assignment of \<open>img_size\<close> leaves that assignment in place.
\<close>

definition collate_fn ::
  "error \<Rightarrow> list_dataset \<Rightarrow> nat \<Rightarrow> item list
     \<Rightarrow> (error + (string list \<times> image list \<times> target list option)) \<times> list_dataset" where
  "collate_fn cat_empty self rnd batch =
     (if batch = [] then (Inl ValueError, self)
      else
        let paths = map fst batch;
            imgs = map (\<lambda>it. fst (snd it)) batch;
            targets = map (\<lambda>it. snd (snd it)) batch
        in case collate_targets cat_empty targets of
             Inl e \<Rightarrow> (Inl e, self)
           | Inr targets \<Rightarrow>
               (let self = (if multiscale self \<and> batch_count self mod 10 = 0
                            then self\<lparr>img_size := random_choice rnd (py_range 320 (608 + 1) 32)\<rparr>
                            else self)
                in case resize_all imgs (img_size self) of
                     Inl e \<Rightarrow> (Inl e, self)
                   | Inr rs \<Rightarrow>
                       (case torch_stack rs of
                          Inl e \<Rightarrow> (Inl e, self)
                        | Inr stacked \<Rightarrow>
                            (Inr (paths, stacked, targets),
                             self\<lparr>batch_count := batch_count self + 1\<rparr>))))"

text \<open>The consumer of the batches calls \<open>collate_fn\<close> once per batch on the same dataset
  object; an exception ends the run. \<open>collate_calls\<close> gives the dataset object after each
  call, for the draws and batches in \<open>calls\<close>.\<close>

fun collate_calls ::
  "error \<Rightarrow> list_dataset \<Rightarrow> (nat \<times> item list) list \<Rightarrow> error + list_dataset list" where
  "collate_calls cat_empty self [] = Inr []"
| "collate_calls cat_empty self ((rnd, batch) # calls) =
     (case collate_fn cat_empty self rnd batch of
        (Inl e, self') \<Rightarrow> Inl e
      | (Inr out, self') \<Rightarrow>
          (case collate_calls cat_empty self' calls of
             Inl e \<Rightarrow> Inl e
           | Inr states \<Rightarrow> Inr (self' # states)))"

subsection \<open>Batches that \<open>collate_fn\<close> can stack\<close>

text \<open>\<open>batch_ok c batch\<close>: the batch is not empty and every image has \<open>c\<close> channels
  and no empty dimension, as the items \<open>__getitem__\<close> produces from decoded RGB images
  have (with \<open>c = 3\<close>). Then \<open>resize\<close> and \<open>torch.stack\<close> do not raise.
  \<open>has_tensor batch\<close>: some item of the batch carries an annotation tensor (with or without rows), so that
  \<open>torch.cat\<close> is given a tensor.\<close>

definition batch_ok :: "nat \<Rightarrow> item list \<Rightarrow> bool" where
  "batch_ok c batch =
     (batch \<noteq> [] \<and> 0 < c
      \<and> list_all (\<lambda>it. length (fst (snd it)) = c
                       \<and> 0 < img_h (fst (snd it)) \<and> 0 < img_w (fst (snd it))) batch)"

definition has_tensor :: "item list \<Rightarrow> bool" where
  "has_tensor batch = list_ex (\<lambda>it. snd (snd it) \<noteq> None) batch"

subsection \<open>Numbering of the kept annotation sets\<close>

text \<open>\<open>renumber n sets\<close> writes \<open>n\<close>, \<open>n + 1\<close>, \<dots> into column 0 of the rows of the
  successive tensors of \<open>sets\<close> and concatenates them: the loop over
  \<open>enumerate(targets)\<close> followed by \<open>torch.cat\<close>, started at any number. It is used to
  state and prove what \<open>collate_targets\<close> computes.\<close>

fun renumber :: "nat \<Rightarrow> target list list \<Rightarrow> target list" where
  "renumber n [] = []"
| "renumber n (boxes # rest) = map (\<lambda>r. r\<lparr>t0 := of_nat n\<rparr>) boxes @ renumber (Suc n) rest"

section \<open>Properties\<close>

lemma has_shape_dims:
  assumes "has_shape c h w img"
  shows "length img = c" and "img_h img = h" and "img_w img = w"
proof -
  from assms have c: "0 < c" and h: "0 < h"
    and m: "map (map length) img = replicate c (replicate h w)"
    by (simp_all add: has_shape_def)
  from m have "length (map (map length) img) = c" by simp
  then show len: "length img = c" by simp
  with c obtain ch rest where img: "img = ch # rest" by (cases img) auto
  with m c have ch: "map length ch = replicate h w" by (cases c) auto
  then have "length (map length ch) = h" by simp
  then have lch: "length ch = h" by simp
  with img show "img_h img = h" by (simp add: img_h_def)
  from lch h obtain r rs where chr: "ch = r # rs" by (cases ch) auto
  with ch h have "length r = w" by (cases h) auto
  with img chr show "img_w img = w" by (simp add: img_w_def)
qed

lemma has_shape_channel:
  assumes "map (map length) img = replicate c (replicate h w)" and "ch \<in> set img"
  shows "map length ch = replicate h w"
proof -
  from assms(2) have "map length ch \<in> set (map (map length) img)" by simp
  with assms(1) show ?thesis by simp
qed

lemma F_pad_shape:
  assumes "has_shape c h w img"
  shows "map (map length) (F_pad img [l, r, t, b] v)
           = replicate c (replicate (t + h + b) (l + w + r))"
proof -
  from assms have m: "map (map length) img = replicate c (replicate h w)"
    by (simp add: has_shape_def)
  have w: "img_w img = w" and c: "length img = c"
    using assms by (rule has_shape_dims)+
  have row: "map (\<lambda>row. l + (length row + r)) ch = replicate h (l + (w + r))"
    if "ch \<in> set img" for ch
  proof -
    have "map (\<lambda>row. l + (length row + r)) ch = map (\<lambda>n. l + (n + r)) (map length ch)"
      by (simp add: comp_def)
    also have "\<dots> = replicate h (l + (w + r))"
      using has_shape_channel [OF m that] by simp
    finally show ?thesis .
  qed
  have "map (map length) (F_pad img [l, r, t, b] v)
          = map (\<lambda>ch. replicate (t + h + b) (l + w + r)) img"
    unfolding F_pad_def Let_def w
    by (simp add: comp_def row replicate_add add.assoc cong: map_cong)
  also have "\<dots> = replicate c (replicate (t + h + b) (l + w + r))"
    by (simp add: map_replicate_const c)
  finally show ?thesis .
qed

subsection \<open>Square padding\<close>

lemma pad_to_square_unfold:
  assumes "has_shape c h w img"
  shows "pad_to_square img v
           = (let d = nat \<bar>int h - int w\<bar>;
                  pad = (if h \<le> w then [0, 0, d div 2, d - d div 2]
                         else [d div 2, d - d div 2, 0, 0])
              in (F_pad img pad v, pad))"
proof -
  have "img_h img = h" and "img_w img = w"
    using assms by (rule has_shape_dims)+
  then show ?thesis by (simp add: pad_to_square_def)
qed

lemma pad_to_square_has_shape:
  assumes "has_shape c h w img"
  shows "has_shape c (max h w) (max h w) (fst (pad_to_square img v))"
proof -
  from assms have pos: "0 < c" "0 < h" "0 < w" by (simp_all add: has_shape_def)
  define d where "d = nat \<bar>int h - int w\<bar>"
  show ?thesis
  proof (cases "h \<le> w")
    case True
    then have "d div 2 + h + (d - d div 2) = w" by (simp add: d_def nat_diff_distrib')
    with F_pad_shape [OF assms, of 0 0 "d div 2" "d - d div 2" v] True pos
    have "has_shape c (max h w) (max h w) (F_pad img [0, 0, d div 2, d - d div 2] v)"
      by (simp add: has_shape_def max_def)
    with True show ?thesis
      by (simp add: pad_to_square_unfold [OF assms] Let_def d_def)
  next
    case False
    then have "d div 2 + w + (d - d div 2) = h" by (simp add: d_def nat_diff_distrib')
    with F_pad_shape [OF assms, of "d div 2" "d - d div 2" 0 0 v] False pos
    have "has_shape c (max h w) (max h w) (F_pad img [d div 2, d - d div 2, 0, 0] v)"
      by (simp add: has_shape_def max_def)
    with False show ?thesis
      by (simp add: pad_to_square_unfold [OF assms] Let_def d_def)
  qed
qed

text \<open>
  Claim C5. For an image of height \<open>h\<close> and width \<open>w\<close>, \<open>pad_to_square\<close> returns an
  image of height and width \<open>max h w\<close> and a padding descriptor
  \<open>[left, right, top, bottom]\<close> whose entries sum to \<open>|h - w|\<close>; each pair is split into
  its floor and ceiling halves; for \<open>h < w\<close> only top/bottom is nonzero, for \<open>w < h\<close> only
  left/right, and for \<open>h = w\<close> all four entries are zero.
\<close>

theorem pad_to_square_shape:
  assumes "has_shape c h w img"
  shows "(case pad_to_square img v of
            (padded, pad) \<Rightarrow>
              has_shape c (max h w) (max h w) padded
              \<and> length pad = 4
              \<and> pad ! 0 + pad ! 1 + pad ! 2 + pad ! 3 = nat \<bar>int h - int w\<bar>
              \<and> pad ! 0 = (pad ! 0 + pad ! 1) div 2 \<and> pad ! 1 = (pad ! 0 + pad ! 1 + 1) div 2
              \<and> pad ! 2 = (pad ! 2 + pad ! 3) div 2 \<and> pad ! 3 = (pad ! 2 + pad ! 3 + 1) div 2
              \<and> (h < w \<longrightarrow> pad ! 0 + pad ! 1 = 0 \<and> pad ! 2 + pad ! 3 = w - h \<and> 0 < pad ! 3)
              \<and> (w < h \<longrightarrow> pad ! 2 + pad ! 3 = 0 \<and> pad ! 0 + pad ! 1 = h - w \<and> 0 < pad ! 1)
              \<and> (h = w \<longrightarrow> pad = [0, 0, 0, 0]))"
proof -
  define d where "d = nat \<bar>int h - int w\<bar>"
  define a where "a = d div 2"
  define b where "b = d - d div 2"
  have ab: "a + b = d" "a = (a + b) div 2" "b = (a + b + 1) div 2" "0 < d \<Longrightarrow> 0 < b"
    unfolding a_def b_def by presburger+
  obtain padded pad where pp: "pad_to_square img v = (padded, pad)"
    by (cases "pad_to_square img v")
  have s: "has_shape c (max h w) (max h w) padded"
    using pad_to_square_has_shape [OF assms, of v] pp by simp
  show ?thesis
  proof (cases "h \<le> w")
    case True
    have p: "pad = [0, 0, a, b]"
      using True pp by (simp add: pad_to_square_unfold [OF assms] Let_def d_def a_def b_def)
    have dw: "d = w - h" using True by (simp add: d_def nat_diff_distrib')
    have z: "h = w \<Longrightarrow> a = 0 \<and> b = 0" using dw ab(1) by simp
    have "h < w \<Longrightarrow> 0 < b" using dw ab(4) by simp
    then show ?thesis using True s ab(1-3) z dw by (simp add: pp p nat_diff_distrib')
  next
    case False
    have p: "pad = [a, b, 0, 0]"
      using False pp by (simp add: pad_to_square_unfold [OF assms] Let_def d_def a_def b_def)
    have dw: "d = h - w" using False by (simp add: d_def nat_diff_distrib')
    have "0 < b" using dw ab(4) False by simp
    then show ?thesis using False s ab(1-3) dw by (simp add: pp p nat_diff_distrib')
  qed
qed

theorem pad_to_square_shape_witness:
  "has_shape 1 1 3 [[[1, 2, 3]]]
   \<and> pad_to_square [[[1, 2, 3]]] 0 = ([[[0, 0, 0], [1, 2, 3], [0, 0, 0]]], [0, 0, 1, 1])
   \<and> has_shape 1 3 3 (fst (pad_to_square [[[1, 2, 3]]] 0))
   \<and> has_shape 1 3 1 [[[1], [2], [3]]]
   \<and> pad_to_square [[[1], [2], [3]]] 0 = ([[[0, 1, 0], [0, 2, 0], [0, 3, 0]]], [1, 1, 0, 0])
   \<and> has_shape 1 3 3 (fst (pad_to_square [[[1], [2], [3]]] 0))
   \<and> has_shape 1 1 1 [[[1]]]
   \<and> pad_to_square [[[1]]] 0 = ([[[1]]], [0, 0, 0, 0])
   \<and> has_shape 1 1 1 (fst (pad_to_square [[[1]]] 0))"
proof -
  have h1: "has_shape 1 1 3 [[[1, 2, 3]]]"
    and h2: "has_shape 1 3 1 [[[1], [2], [3]]]"
    and h3: "has_shape 1 1 1 [[[1]]]"
    by (simp_all add: has_shape_def numeral_3_eq_3)
  have e1: "pad_to_square [[[1, 2, 3]]] 0 = ([[[0, 0, 0], [1, 2, 3], [0, 0, 0]]], [0, 0, 1, 1])"
    and e2: "pad_to_square [[[1], [2], [3]]] 0
               = ([[[0, 1, 0], [0, 2, 0], [0, 3, 0]]], [1, 1, 0, 0])"
    and e3: "pad_to_square [[[1]]] 0 = ([[[1]]], [0, 0, 0, 0])"
    by (simp_all add: pad_to_square_def F_pad_def img_h_def img_w_def Let_def numeral_3_eq_3)
  have s1: "has_shape 1 3 3 (fst (pad_to_square [[[1, 2, 3]]] 0))"
    using pad_to_square_shape [OF h1, of 0] by (simp add: split_beta)
  have s2: "has_shape 1 3 3 (fst (pad_to_square [[[1], [2], [3]]] 0))"
    using pad_to_square_shape [OF h2, of 0] by (simp add: split_beta)
  have s3: "has_shape 1 1 1 (fst (pad_to_square [[[1]]] 0))"
    using pad_to_square_shape [OF h3, of 0] by (simp add: split_beta)
  from h1 h2 h3 e1 e2 e3 s1 s2 s3 show ?thesis by blast
qed

subsection \<open>Horizontal flip\<close>

lemma flip_flip_image: "map (map rev) (map (map rev) (img :: image)) = img"
  by (simp add: comp_def)

lemma flip_has_shape: "has_shape c h w img \<Longrightarrow> has_shape c h w (map (map rev) img)"
  by (simp add: has_shape_def comp_def)

lemma horisontal_flip_tensor_involution:
  "\<exists>img' ts'.
      horisontal_flip img (Some ts) = Inr (img', Some ts')
    \<and> img' = map (map rev) img
    \<and> map t2 ts' = map (\<lambda>r. 1 - t2 r) ts
    \<and> map t0 ts' = map t0 ts \<and> map t1 ts' = map t1 ts \<and> map t3 ts' = map t3 ts
    \<and> map t4 ts' = map t4 ts \<and> map t5 ts' = map t5 ts
    \<and> horisontal_flip img' (Some ts') = Inr (img, Some ts)"
  by (simp add: horisontal_flip_def comp_def)

text \<open>
  Claim C8 says that for every image and every annotation set two applications of
  \<open>horisontal_flip\<close> give back the original and one application rewrites center x to
  \<open>1 - center_x\<close>. For an annotation tensor this holds (the lemma above, in exact
  arithmetic). For \<open>None\<close>, the annotation set of an item without label file, which
  \<open>__getitem__\<close> passes to the flip, the first application already raises
  \<open>TypeError\<close>, whatever the image.
\<close>

theorem horisontal_flip_None_raises:
  "horisontal_flip img None = Inl TypeError"
  by (simp add: horisontal_flip_def)

subsection \<open>The 100 by 50 example\<close>

lemma pad_50_100:
  assumes "has_shape c 50 100 img"
  shows "snd (pad_to_square img v) = [0, 0, 25, 25]"
    and "has_shape c 100 100 (fst (pad_to_square img v))"
proof -
  have hh: "img_h img = 50" and ww: "img_w img = 100"
    using assms by (rule has_shape_dims)+
  show "snd (pad_to_square img v) = [0, 0, 25, 25]"
    by (simp add: pad_to_square_def Let_def hh ww)
  from pad_to_square_has_shape [OF assms, of v]
  show "has_shape c 100 100 (fst (pad_to_square img v))"
    by simp
qed

lemma load_targets_example:
  "load_targets [[0, 1 / 2, 1 / 2, 1 / 5, 2 / 5]] 50 100 [0, 0, 25, 25] 100 100
     = Inr [\<lparr>t0 = 0, t1 = 0, t2 = 1 / 2, t3 = 1 / 2, t4 = 1 / 5, t5 = 1 / 5\<rparr>]"
  by (simp add: load_targets_def np_loadtxt_def remap_box_def to_target_def Let_def)

lemma rstrip_example: "rstrip (''images/a.jpg\<newline>'') = ''images/a.jpg''"
  "rstrip (''labels/a.txt\<newline>'') = ''labels/a.txt''"
  by (simp_all add: rstrip_def is_space_def)

lemma init_example:
  "ListDataset_init [''images/a.jpg\<newline>''] sz aug multi nrm
     = \<lparr>img_files = [''images/a.jpg\<newline>''],
        label_files = [''labels/a.txt\<newline>''],
        img_size = sz, max_objects = 100, augment = aug, multiscale = multi,
        normalized_labels = nrm, batch_count = 0\<rparr>"
  by (simp add: ListDataset_init_def)

text \<open>
  Claim C4. For an image of width 100 and height 50 with the single normalized label
  \<open>0 0.5 0.5 0.2 0.4\<close>, the padding descriptor is \<open>[0, 0, 25, 25]\<close> (25 rows above and
  below), the padded frame is 100 by 100, and the remapped row has center \<open>(0.5, 0.5)\<close>,
  width \<open>0.2\<close> and height \<open>0.2\<close>, whatever \<open>augment\<close> and the flip draw are.
\<close>

theorem getitem_example_100x50:
  assumes files: "img_files ds \<noteq> []"
    and k: "k = nat (i mod int (length (img_files ds)))"
    and lab: "k < length (label_files ds)"
    and raw: "image_file wd (rstrip (img_files ds ! k)) = Some raw"
    and img0: "img0 = (if augment ds then color_jitter wd raw else raw)"
    and shape: "has_shape c 50 100 img0"
    and label: "label_file wd (rstrip (label_files ds ! k)) = Some [[0, 1 / 2, 1 / 2, 1 / 5, 2 / 5]]"
    and norm: "normalized_labels ds"
  shows "snd (pad_to_square img0 0) = [0, 0, 25, 25]
       \<and> has_shape c 100 100 (fst (pad_to_square img0 0))
       \<and> (\<exists>img. has_shape c 100 100 img
              \<and> ListDataset_getitem wd ds u i
                  = Inr (rstrip (img_files ds ! k), img,
                         Some [\<lparr>t0 = 0, t1 = 0, t2 = 1 / 2, t3 = 1 / 2, t4 = 1 / 5, t5 = 1 / 5\<rparr>]))"
proof -
  have hh: "img_h img0 = 50" and ww: "img_w img0 = 100"
    using shape by (rule has_shape_dims)+
  obtain padded where p: "pad_to_square img0 0 = (padded, [0, 0, 25, 25])"
    using pad_50_100(1) [OF shape, of 0] by (cases "pad_to_square img0 0") simp
  have ps: "has_shape c 100 100 padded"
    using pad_50_100(2) [OF shape, of 0] p by simp
  have ph: "img_h padded = 100" and pw: "img_w padded = 100"
    using ps by (rule has_shape_dims)+
  have fl: "horisontal_flip padded
              (Some [\<lparr>t0 = 0, t1 = 0, t2 = 1 / 2, t3 = 1 / 2, t4 = 1 / 5, t5 = 1 / 5\<rparr>])
            = Inr (map (map rev) padded,
                   Some [\<lparr>t0 = 0, t1 = 0, t2 = 1 / 2, t3 = 1 / 2, t4 = 1 / 5, t5 = 1 / 5\<rparr>])"
    by (simp add: horisontal_flip_def)
  have g: "ListDataset_getitem wd ds u i
             = Inr (rstrip (img_files ds ! k),
                    (if augment ds \<and> u < 1 / 2 then map (map rev) padded else padded),
                    Some [\<lparr>t0 = 0, t1 = 0, t2 = 1 / 2, t3 = 1 / 2, t4 = 1 / 5, t5 = 1 / 5\<rparr>])"
    using files lab norm
    by (simp add: ListDataset_getitem_def Let_def k [symmetric] raw img0 [symmetric] p hh ww ph pw
          label load_targets_example fl)
  have "has_shape c 100 100 (if augment ds \<and> u < 1 / 2 then map (map rev) padded else padded)"
    using ps by (simp add: flip_has_shape)
  with g p ps show ?thesis by auto
qed

theorem getitem_example_100x50_witness:
  "\<exists>img. has_shape 3 100 100 img
      \<and> ListDataset_getitem
           \<lparr>image_file = (\<lambda>p. if p = ''images/a.jpg''
                                then Some (replicate 3 (replicate 50 (replicate 100 0))) else None),
            label_file = (\<lambda>p. if p = ''labels/a.txt''
                                then Some [[0, 1 / 2, 1 / 2, 1 / 5, 2 / 5]] else None),
            color_jitter = (\<lambda>img. img)\<rparr>
           (ListDataset_init [''images/a.jpg\<newline>''] 416 False False True) 0 0
         = Inr (''images/a.jpg'', img,
                Some [\<lparr>t0 = 0, t1 = 0, t2 = 1 / 2, t3 = 1 / 2, t4 = 1 / 5, t5 = 1 / 5\<rparr>])"
proof -
  define wd where "wd = \<lparr>image_file = (\<lambda>p. if p = ''images/a.jpg''
                                then Some (replicate 3 (replicate 50 (replicate 100 (0::rat)))) else None),
            label_file = (\<lambda>p. if p = ''labels/a.txt''
                                then Some [[0, 1 / 2, 1 / 2, 1 / 5, 2 / 5 :: rat]] else None),
            color_jitter = (\<lambda>img. img)\<rparr>"
  define ds where "ds = ListDataset_init [''images/a.jpg\<newline>''] 416 False False True"
  have ds: "img_files ds = [''images/a.jpg\<newline>'']"
    "label_files ds = [''labels/a.txt\<newline>'']"
    "normalized_labels ds" "\<not> augment ds"
    by (simp_all add: ds_def init_example)
  have 1: "img_files ds \<noteq> []" by (simp add: ds)
  have 2: "(0::nat) = nat (0 mod int (length (img_files ds)))" by (simp add: ds)
  have 3: "0 < length (label_files ds)" by (simp add: ds)
  have 4: "image_file wd (rstrip (img_files ds ! 0))
             = Some (replicate 3 (replicate 50 (replicate 100 0)))"
    by (simp add: ds wd_def rstrip_example)
  have 5: "replicate 3 (replicate 50 (replicate 100 (0::rat)))
             = (if augment ds then color_jitter wd (replicate 3 (replicate 50 (replicate 100 0)))
                else replicate 3 (replicate 50 (replicate 100 0)))"
    by (simp add: ds)
  have 6: "has_shape 3 50 100 (replicate 3 (replicate 50 (replicate 100 (0::rat))))"
    by (simp add: has_shape_def)
  have 7: "label_file wd (rstrip (label_files ds ! 0)) = Some [[0, 1 / 2, 1 / 2, 1 / 5, 2 / 5]]"
    by (simp add: ds wd_def rstrip_example)
  have "\<exists>img. has_shape 3 100 100 img
          \<and> ListDataset_getitem wd ds 0 0
               = Inr (''images/a.jpg'', img,
                      Some [\<lparr>t0 = 0, t1 = 0, t2 = 1 / 2, t3 = 1 / 2, t4 = 1 / 5, t5 = 1 / 5\<rparr>])"
    using getitem_example_100x50 [OF 1 2 3 4 5 6 7 ds(3), of 0]
    by (simp add: ds(1) rstrip_example)
  then show ?thesis unfolding wd_def ds_def .
qed

subsection \<open>Index wrapping\<close>

lemma horisontal_flip_error: "horisontal_flip img t = Inl e \<Longrightarrow> e = TypeError"
  by (auto simp: horisontal_flip_def split: option.splits)

lemma reshape5_error: "reshape5 xs = Inl e \<Longrightarrow> e = ValueError"
  by (induction xs arbitrary: e rule: reshape5.induct) (auto split: sum.splits)

lemma load_targets_error:
  "load_targets lines hfac wfac pad ph pw = Inl e \<Longrightarrow> e = ValueError \<or> e = ZeroDivisionError"
  by (auto simp: load_targets_def np_loadtxt_def Let_def split: sum.splits if_splits
           dest: reshape5_error)

lemma nat_mod_less: "0 < n \<Longrightarrow> nat (i mod int n) < n"
  by (simp add: nat_less_iff)

lemma ListDataset_getitem_IndexError:
  assumes "ListDataset_getitem wd ds u i = Inl IndexError"
  shows "length (label_files ds) \<le> nat (i mod int (length (img_files ds)))"
proof (rule ccontr)
  assume n: "\<not> ?thesis"
  have f: "horisontal_flip im t \<noteq> Inl IndexError" for im t
    using horisontal_flip_error [of im t IndexError] by auto
  have l: "load_targets lines hfac wfac pad ph pw \<noteq> Inl IndexError" for lines hfac wfac pad ph pw
    using load_targets_error [of lines hfac wfac pad ph pw IndexError] by auto
  from assms n show False
    by (simp add: ListDataset_getitem_def Let_def f l
             split: option.splits sum.splits prod.splits if_splits)
qed

lemma ListDataset_getitem_path:
  assumes "ListDataset_getitem wd ds u i = Inr (p, img, t)"
  shows "p = rstrip (img_files ds ! nat (i mod int (length (img_files ds))))
         \<and> image_file wd p \<noteq> None"
  using assms
  by (auto simp: ListDataset_getitem_def Let_def
           split: option.splits sum.splits prod.splits if_splits)

lemma ListDataset_getitem_missing_image:
  assumes "0 < length (img_files ds)"
    and "image_file wd (rstrip (img_files ds ! nat (i mod int (length (img_files ds))))) = None"
  shows "ListDataset_getitem wd ds u i = Inl FileNotFoundError"
  using assms by (simp add: ListDataset_getitem_def Let_def)

lemma ListDataset_getitem_mod:
  "ListDataset_getitem wd ds u (i mod int (length (img_files ds))) = ListDataset_getitem wd ds u i"
  by (simp add: ListDataset_getitem_def)

lemma ImageFolder_getitem_mod:
  "ImageFolder_getitem wd fd (i mod int (length (files fd))) = ImageFolder_getitem wd fd i"
  by (simp add: ImageFolder_getitem_def)

lemma resize_error: "resize img sz = Inl e \<Longrightarrow> e = RuntimeError"
  by (simp add: resize_def split: if_splits)

lemma ImageFolder_getitem_not_IndexError: "ImageFolder_getitem wd fd i \<noteq> Inl IndexError"
proof
  assume a: "ImageFolder_getitem wd fd i = Inl IndexError"
  have r: "resize im sz \<noteq> Inl IndexError" for im sz
    using resize_error [of im sz IndexError] by auto
  from a show False
    by (simp add: ImageFolder_getitem_def Let_def r
             split: option.splits sum.splits prod.splits if_splits)
qed

lemma ImageFolder_getitem_path:
  assumes "ImageFolder_getitem wd fd i = Inr (p, img)"
  shows "p = files fd ! nat (i mod int (length (files fd))) \<and> image_file wd p \<noteq> None"
  using assms
  by (auto simp: ImageFolder_getitem_def Let_def
           split: option.splits sum.splits prod.splits if_splits)

lemma ImageFolder_getitem_missing_image:
  assumes "0 < length (files fd)"
    and "image_file wd (files fd ! nat (i mod int (length (files fd)))) = None"
  shows "ImageFolder_getitem wd fd i = Inl FileNotFoundError"
  using assms by (simp add: ImageFolder_getitem_def Let_def)

text \<open>
  Claim C10. For a \<open>ListDataset\<close> and an \<open>ImageFolder\<close> with at least one file and any
  integer index \<open>i\<close>, \<open>__getitem__(i)\<close> is \<open>__getitem__(i mod N)\<close>: it opens the file
  at list position \<open>i mod N\<close> (a result carries that path, and the call fails with the
  decode failure when that file cannot be opened), and it never raises \<open>IndexError\<close>.
  (\<open>label_files\<close> has the length of \<open>img_files\<close>, as \<open>__init__\<close> builds it.)
\<close>

theorem getitem_index_wraps:
  assumes n: "0 < length (img_files ds)"
    and l: "length (label_files ds) = length (img_files ds)"
    and m: "0 < length (files fd)"
  shows "nat (i mod int (length (img_files ds))) < length (img_files ds)
       \<and> ListDataset_getitem wd ds u i
           = ListDataset_getitem wd ds u (i mod int (length (img_files ds)))
       \<and> (case ListDataset_getitem wd ds u i of
             Inr (p, img, t) \<Rightarrow>
               p = rstrip (img_files ds ! nat (i mod int (length (img_files ds))))
               \<and> image_file wd p \<noteq> None
           | Inl e \<Rightarrow> e \<noteq> IndexError)
       \<and> (image_file wd (rstrip (img_files ds ! nat (i mod int (length (img_files ds))))) = None
            \<longrightarrow> ListDataset_getitem wd ds u i = Inl FileNotFoundError)
       \<and> nat (j mod int (length (files fd))) < length (files fd)
       \<and> ImageFolder_getitem wd fd j = ImageFolder_getitem wd fd (j mod int (length (files fd)))
       \<and> (case ImageFolder_getitem wd fd j of
             Inr (p, img) \<Rightarrow>
               p = files fd ! nat (j mod int (length (files fd))) \<and> image_file wd p \<noteq> None
           | Inl e \<Rightarrow> e \<noteq> IndexError)
       \<and> (image_file wd (files fd ! nat (j mod int (length (files fd)))) = None
            \<longrightarrow> ImageFolder_getitem wd fd j = Inl FileNotFoundError)"
proof -
  have 1: "nat (i mod int (length (img_files ds))) < length (img_files ds)"
    using n by (rule nat_mod_less)
  have 2: "case ListDataset_getitem wd ds u i of
             Inr (p, img, t) \<Rightarrow>
               p = rstrip (img_files ds ! nat (i mod int (length (img_files ds))))
               \<and> image_file wd p \<noteq> None
           | Inl e \<Rightarrow> e \<noteq> IndexError"
  proof (cases "ListDataset_getitem wd ds u i")
    case (Inl e)
    with ListDataset_getitem_IndexError [of wd ds u i] 1 l show ?thesis by auto
  next
    case (Inr r)
    obtain p img t where "r = (p, img, t)" by (cases r) auto
    with Inr ListDataset_getitem_path [of wd ds u i p img t] show ?thesis by auto
  qed
  have 3: "nat (j mod int (length (files fd))) < length (files fd)"
    using m by (rule nat_mod_less)
  have 4: "case ImageFolder_getitem wd fd j of
             Inr (p, img) \<Rightarrow>
               p = files fd ! nat (j mod int (length (files fd))) \<and> image_file wd p \<noteq> None
           | Inl e \<Rightarrow> e \<noteq> IndexError"
  proof (cases "ImageFolder_getitem wd fd j")
    case (Inl e)
    with ImageFolder_getitem_not_IndexError [of wd fd j] show ?thesis by auto
  next
    case (Inr r)
    obtain p img where "r = (p, img)" by (cases r) auto
    with Inr ImageFolder_getitem_path [of wd fd j p img] show ?thesis by auto
  qed
  from 1 2 3 4 show ?thesis
    using ListDataset_getitem_mod [of wd ds u i] ImageFolder_getitem_mod [of wd fd j]
      ListDataset_getitem_missing_image [OF n, of wd i u]
      ImageFolder_getitem_missing_image [OF m, of wd j]
    by simp
qed

theorem getitem_index_wraps_witness:
  "ListDataset_getitem
      \<lparr>image_file = (\<lambda>p. if p = ''images/b.jpg'' then Some [[[1 / 2]]] else None),
       label_file = (\<lambda>p. None), color_jitter = (\<lambda>img. img)\<rparr>
      (ListDataset_init [''images/a.jpg\<newline>'', ''images/b.jpg\<newline>''] 416 False False True) 0 5
     = Inr (''images/b.jpg'', [[[1 / 2]]], None)
   \<and> ListDataset_getitem
      \<lparr>image_file = (\<lambda>p. if p = ''images/b.jpg'' then Some [[[1 / 2]]] else None),
       label_file = (\<lambda>p. None), color_jitter = (\<lambda>img. img)\<rparr>
      (ListDataset_init [''images/a.jpg\<newline>'', ''images/b.jpg\<newline>''] 416 False False True) 0 (- 2)
     = Inl FileNotFoundError
   \<and> ImageFolder_getitem
      \<lparr>image_file = (\<lambda>p. if p = ''images/b.jpg'' then Some [[[1 / 2]]] else None),
       label_file = (\<lambda>p. None), color_jitter = (\<lambda>img. img)\<rparr>
      \<lparr>files = [''images/a.jpg'', ''images/b.jpg''], folder_img_size = 1\<rparr> (- 1)
     = Inr (''images/b.jpg'', [[[1 / 2]]])
   \<and> ImageFolder_getitem
      \<lparr>image_file = (\<lambda>p. if p = ''images/b.jpg'' then Some [[[1 / 2]]] else None),
       label_file = (\<lambda>p. None), color_jitter = (\<lambda>img. img)\<rparr>
      \<lparr>files = [''images/a.jpg'', ''images/b.jpg''], folder_img_size = 1\<rparr> 4
     = Inl FileNotFoundError"
proof -
  define wd :: world where
    "wd = \<lparr>image_file = (\<lambda>p. if p = ''images/b.jpg'' then Some [[[1 / 2]]] else None),
           label_file = (\<lambda>p. None), color_jitter = (\<lambda>img. img)\<rparr>"
  define ds where
    "ds = ListDataset_init [''images/a.jpg\<newline>'', ''images/b.jpg\<newline>''] 416 False False True"
  define fd where "fd = \<lparr>files = [''images/a.jpg'', ''images/b.jpg''], folder_img_size = 1\<rparr>"
  have n: "0 < length (img_files ds)"
    and l: "length (label_files ds) = length (img_files ds)"
    and m: "0 < length (files fd)"
    by (simp_all add: ds_def fd_def ListDataset_init_def)
  have len: "length (img_files ds) = 2" "length (files fd) = 2"
    by (simp_all add: ds_def fd_def ListDataset_init_def)
  have m5: "(5::int) mod 2 = 1" and m2: "(- 2::int) mod 2 = 0"
    and m1: "(- 1::int) mod 2 = 1" and m4: "(4::int) mod 2 = 0"
    by simp_all
  have a: "ListDataset_getitem wd ds 0 1 = Inr (''images/b.jpg'', [[[1 / 2]]], None)"
    by (simp add: ListDataset_getitem_def ds_def wd_def ListDataset_init_def Let_def
          rstrip_def is_space_def pad_to_square_def F_pad_def img_h_def img_w_def)
  have b: "ImageFolder_getitem wd fd 1 = Inr (''images/b.jpg'', [[[1 / 2]]])"
    by (simp add: ImageFolder_getitem_def fd_def wd_def Let_def resize_def bilinear_def
          src_index_def pad_to_square_def F_pad_def img_h_def img_w_def)
  have c: "image_file wd (rstrip (img_files ds ! 0)) = None"
    "image_file wd (files fd ! 0) = None"
    by (simp_all add: ds_def fd_def wd_def ListDataset_init_def rstrip_def is_space_def)
  note w1 = getitem_index_wraps [OF n l m, of 5 wd 0 "- 1"]
  note w2 = getitem_index_wraps [OF n l m, of "- 2" wd 0 4]
  have "ListDataset_getitem wd ds 0 5
          = ListDataset_getitem wd ds 0 (5 mod int (length (img_files ds)))"
    using w1 by blast
  then have "ListDataset_getitem wd ds 0 5 = Inr (''images/b.jpg'', [[[1 / 2]]], None)"
    by (simp add: len a)
  moreover have "image_file wd (rstrip (img_files ds ! nat (- 2 mod int (length (img_files ds)))))
                   = None"
    by (simp add: len c)
  then have "ListDataset_getitem wd ds 0 (- 2) = Inl FileNotFoundError"
    using w2 by blast
  moreover have "ImageFolder_getitem wd fd (- 1)
                   = ImageFolder_getitem wd fd (- 1 mod int (length (files fd)))"
    using w1 by blast
  then have "ImageFolder_getitem wd fd (- 1) = Inr (''images/b.jpg'', [[[1 / 2]]])"
    by (simp add: len b)
  moreover have "image_file wd (files fd ! nat (4 mod int (length (files fd)))) = None"
    by (simp add: len c)
  then have "ImageFolder_getitem wd fd 4 = Inl FileNotFoundError"
    using w2 by blast
  ultimately show ?thesis unfolding wd_def ds_def fd_def by blast
qed

subsection \<open>Items without a label file\<close>

lemma ListDataset_getitem_missing_label:
  assumes "0 < length (img_files ds)"
    and "k = nat (i mod int (length (img_files ds)))"
    and "k < length (label_files ds)"
    and "image_file wd (rstrip (img_files ds ! k)) = Some raw"
    and "label_file wd (rstrip (label_files ds ! k)) = None"
  shows "ListDataset_getitem wd ds u i
           = (if augment ds \<and> u < 1 / 2 then Inl TypeError
              else Inr (rstrip (img_files ds ! k),
                        fst (pad_to_square (if augment ds then color_jitter wd raw else raw) 0),
                        None))"
  using assms
  by (simp add: ListDataset_getitem_def Let_def horisontal_flip_def split_beta)

text \<open>
  Claim C2 says that for an index whose label file does not exist \<open>__getitem__\<close> returns
  \<open>None\<close> as annotation set and never raises, also with \<open>augment=True\<close>. With
  \<open>augment\<close> set and a flip draw below 0.5 the call passes \<open>None\<close> to
  \<open>horisontal_flip\<close> and raises \<open>TypeError\<close>; with a draw of at least 0.5 the same
  item is returned with \<open>None\<close>.
\<close>

theorem getitem_missing_label_flip_raises:
  "ListDataset_getitem
      \<lparr>image_file = (\<lambda>p. if p = ''images/a.jpg'' then Some [[[1 / 2]]] else None),
       label_file = (\<lambda>p. None), color_jitter = (\<lambda>img. img)\<rparr>
      (ListDataset_init [''images/a.jpg\<newline>''] 416 True True True) (1 / 4) 0
     = Inl TypeError
   \<and> ListDataset_getitem
      \<lparr>image_file = (\<lambda>p. if p = ''images/a.jpg'' then Some [[[1 / 2]]] else None),
       label_file = (\<lambda>p. None), color_jitter = (\<lambda>img. img)\<rparr>
      (ListDataset_init [''images/a.jpg\<newline>''] 416 True True True) (3 / 4) 0
     = Inr (''images/a.jpg'', [[[1 / 2]]], None)"
  by (simp add: ListDataset_getitem_def ListDataset_init_def Let_def rstrip_def is_space_def
        pad_to_square_def F_pad_def img_h_def img_w_def horisontal_flip_def)

subsection \<open>Collation: resizing and stacking\<close>

lemma py_range_sizes: "py_range 320 609 32 = [320, 352, 384, 416, 448, 480, 512, 544, 576, 608]"
  by (simp add: py_range_def upt_rec)

lemma random_choice_sizes:
  "random_choice rnd (py_range 320 (608 + 1) 32)
     \<in> set [320, 352, 384, 416, 448, 480, 512, 544, 576, 608]"
proof -
  have "rnd mod 10 < length [320, 352, 384, 416, 448, 480, 512, 544, 576, 608 :: nat]" by simp
  then have "[320, 352, 384, 416, 448, 480, 512, 544, 576, 608 :: nat] ! (rnd mod 10)
               \<in> set [320, 352, 384, 416, 448, 480, 512, 544, 576, 608]"
    by (rule nth_mem)
  then show ?thesis by (simp add: random_choice_def py_range_sizes)
qed

lemma random_choice_pos: "0 < random_choice rnd (py_range 320 (608 + 1) 32)"
  using random_choice_sizes [of rnd] by auto

lemma resize_Inr:
  assumes "resize img sz = Inr r"
  shows "has_shape (length img) sz sz r" and "shape3 r = (length img, sz, sz)"
proof -
  from assms have pos: "0 < sz" "0 < length img"
    and r: "r = map (\<lambda>ch. map (\<lambda>y. map (\<lambda>x. bilinear ch (img_h img) (img_w img) sz y x)
                                          [0..<sz]) [0..<sz]) img"
    by (auto simp: resize_def split: if_splits)
  have m: "map (map length) r = replicate (length img) (replicate sz sz)"
    by (simp add: r comp_def map_replicate_const)
  with pos show "has_shape (length img) sz sz r" by (simp add: has_shape_def)
  then show "shape3 r = (length img, sz, sz)"
    by (simp add: shape3_def has_shape_dims)
qed

lemma resize_ok:
  assumes "0 < sz" "0 < length img" "0 < img_h img" "0 < img_w img"
  shows "\<exists>r. resize img sz = Inr r"
  using assms by (simp add: resize_def)

lemma resize_all_Inr:
  "resize_all imgs sz = Inr rs \<Longrightarrow> map Inr rs = map (\<lambda>img. resize img sz) imgs"
  by (induction imgs arbitrary: rs) (auto split: sum.splits)

lemma resize_all_ok:
  assumes "0 < sz" "list_all (\<lambda>img. 0 < length img \<and> 0 < img_h img \<and> 0 < img_w img) imgs"
  shows "\<exists>rs. resize_all imgs sz = Inr rs"
  using assms(2)
proof (induction imgs)
  case Nil
  then show ?case by simp
next
  case (Cons img imgs)
  then obtain rs where rs: "resize_all imgs sz = Inr rs" by auto
  from Cons.prems assms(1) obtain r where "resize img sz = Inr r"
    using resize_ok [of sz img] by auto
  with rs show ?case by simp
qed

lemma torch_stack_Inr: "torch_stack ts = Inr st \<Longrightarrow> st = ts \<and> ts \<noteq> []"
  by (auto simp: torch_stack_def split: if_splits)

lemma resize_all_shapes:
  assumes "resize_all imgs sz = Inr rs" and "list_all (\<lambda>img. length img = c) imgs"
  shows "length rs = length imgs
       \<and> list_all (\<lambda>r. has_shape c sz sz r \<and> shape3 r = (c, sz, sz)) rs"
  using assms
proof (induction imgs arbitrary: rs)
  case Nil
  then show ?case by simp
next
  case (Cons img imgs)
  from Cons.prems(1) obtain r rs' where r: "resize img sz = Inr r"
    and rs': "resize_all imgs sz = Inr rs'" and rs: "rs = r # rs'"
    by (auto split: sum.splits)
  from Cons.prems(2) have c: "length img = c" and cs: "list_all (\<lambda>img. length img = c) imgs"
    by simp_all
  from Cons.IH [OF rs' cs] resize_Inr [OF r] c rs show ?case by simp
qed

lemma torch_stack_ok:
  assumes "ts \<noteq> []" and "list_all (\<lambda>t. shape3 t = s) ts"
  shows "torch_stack ts = Inr ts"
proof -
  from assms have "shape3 (hd ts) = s" by (cases ts) auto
  with assms show ?thesis
    by (simp add: torch_stack_def list_all_iff)
qed

lemma torch_stack_shapes:
  assumes "torch_stack ts = Inr st"
  shows "list_all (\<lambda>t. shape3 t = shape3 (hd ts)) ts"
  using assms by (simp add: torch_stack_def split: if_splits)

subsection \<open>Collation: the annotation output\<close>

lemma concat_enumerate_renumber:
  "concat (map (\<lambda>(i, boxes). map (\<lambda>r. r\<lparr>t0 := of_nat i\<rparr>) boxes) (enumerate n sets))
     = renumber n sets"
  by (induction sets arbitrary: n) simp_all

lemma enumerate_eq_Nil: "enumerate n xs = [] \<longleftrightarrow> xs = []"
  by (cases xs) simp_all

lemma collate_targets_kept:
  assumes "filter (\<lambda>boxes. boxes \<noteq> None) ts \<noteq> []"
  shows "collate_targets cat_empty ts
           = Inr (Some (renumber 0 (map the (filter (\<lambda>boxes. boxes \<noteq> None) ts))))"
  using assms
  by (simp add: collate_targets_def torch_cat_def concat_enumerate_renumber Let_def
        enumerate_eq_Nil)

lemma collate_targets_nothing_kept:
  assumes "filter (\<lambda>boxes. boxes \<noteq> None) ts = []"
  shows "collate_targets cat_empty ts
           = (if cat_empty = RuntimeError then Inr None else Inl cat_empty)"
  using assms by (simp add: collate_targets_def torch_cat_def)

lemma collate_targets_Inr:
  assumes "collate_targets cat_empty ts = Inr out"
  shows "out = (if filter (\<lambda>boxes. boxes \<noteq> None) ts = [] then None
                else Some (renumber 0 (map the (filter (\<lambda>boxes. boxes \<noteq> None) ts))))"
proof (cases "filter (\<lambda>boxes. boxes \<noteq> None) ts = []")
  case True
  with assms collate_targets_nothing_kept [OF True, of cat_empty] show ?thesis
    by (simp split: if_splits)
next
  case False
  with assms collate_targets_kept [OF False, of cat_empty] show ?thesis by simp
qed

lemma collate_targets_rows:
  assumes "collate_targets cat_empty ts = Inr out"
  shows "(case out of None \<Rightarrow> [] | Some rows \<Rightarrow> rows)
           = renumber 0 (map the (filter (\<lambda>boxes. boxes \<noteq> None) ts))"
  using collate_targets_Inr [OF assms] by simp

lemma collate_targets_returns:
  assumes "cat_empty = RuntimeError \<or> list_ex (\<lambda>t. t \<noteq> None) ts"
  shows "\<exists>out. collate_targets cat_empty ts = Inr out"
proof (cases "filter (\<lambda>boxes. boxes \<noteq> None) ts = []")
  case True
  then have "\<not> list_ex (\<lambda>t. t \<noteq> None) ts"
    by (simp add: list_ex_iff filter_empty_conv)
  with assms have "cat_empty = RuntimeError" by blast
  with collate_targets_nothing_kept [OF True, of cat_empty] show ?thesis by simp
next
  case False
  from collate_targets_kept [OF False, of cat_empty] show ?thesis by blast
qed




lemma renumber_parts:
  "renumber n sets = concat (map (\<lambda>(i, boxes). map (\<lambda>r. r\<lparr>t0 := of_nat i\<rparr>) boxes) (enumerate n sets))"
  by (simp add: concat_enumerate_renumber)

lemma t0_renumber:
  "t0 ` set (renumber n sets) = of_nat ` {i. n \<le> i \<and> i < n + length sets \<and> sets ! (i - n) \<noteq> []}"
proof (induction sets arbitrary: n)
  case Nil
  then show ?case by simp
next
  case (Cons boxes rest)
  have a: "t0 ` set (map (\<lambda>r. r\<lparr>t0 := of_nat n\<rparr>) boxes)
             = (if boxes = [] then {} else {of_nat n :: rat})"
    by (cases boxes) auto
  have b: "{i. n \<le> i \<and> i < n + length (boxes # rest) \<and> (boxes # rest) ! (i - n) \<noteq> []}
             = (if boxes = [] then {} else {n})
               \<union> {i. Suc n \<le> i \<and> i < Suc n + length rest \<and> rest ! (i - Suc n) \<noteq> []}"
    (is "?L = ?R")
  proof (rule set_eqI)
    fix i
    show "i \<in> ?L \<longleftrightarrow> i \<in> ?R"
    proof (cases "i = n")
      case True
      then show ?thesis by auto
    next
      case False
      have "(boxes # rest) ! (i - n) = rest ! (i - Suc n)" if "n \<le> i"
      proof -
        from that False have "i - n = Suc (i - Suc n)" by simp
        then show ?thesis by simp
      qed
      with False show ?thesis by auto
    qed
  qed
  have "t0 ` set (renumber n (boxes # rest))
          = t0 ` set (map (\<lambda>r. r\<lparr>t0 := of_nat n\<rparr>) boxes) \<union> t0 ` set (renumber (Suc n) rest)"
    by (simp only: renumber.simps set_append image_Un)
  also have "\<dots> = (if boxes = [] then {} else {of_nat n})
                   \<union> of_nat ` {i. Suc n \<le> i \<and> i < Suc n + length rest \<and> rest ! (i - Suc n) \<noteq> []}"
    by (simp only: a Cons.IH)
  also have "\<dots> = of_nat ` ((if boxes = [] then {} else {n})
                   \<union> {i. Suc n \<le> i \<and> i < Suc n + length rest \<and> rest ! (i - Suc n) \<noteq> []})"
    by (simp add: image_Un)
  finally show ?case by (simp only: b)
qed

subsection \<open>Collation: when the call returns\<close>

lemma collate_fn_Inr:
  assumes "collate_fn cat_empty ds rnd batch = (Inr (paths, stacked, targets), ds')"
  defines "S \<equiv> (if multiscale ds \<and> batch_count ds mod 10 = 0
                 then random_choice rnd (py_range 320 (608 + 1) 32) else img_size ds)"
  shows "batch \<noteq> []"
    and "paths = map fst batch"
    and "collate_targets cat_empty (map (\<lambda>it. snd (snd it)) batch) = Inr targets"
    and "img_size ds' = S"
    and "batch_count ds' = batch_count ds + 1"
    and "multiscale ds' = multiscale ds"
    and "resize_all (map (\<lambda>it. fst (snd it)) batch) S = Inr stacked"
    and "torch_stack stacked = Inr stacked"
  using assms(1) unfolding S_def
  by (auto simp: collate_fn_def Let_def split: if_splits sum.splits dest: torch_stack_Inr)

lemma collate_fn_ok:
  fixes rnd :: nat
  assumes ok: "batch_ok c batch"
    and sz: "multiscale ds \<and> batch_count ds mod 10 = 0 \<or> 0 < img_size ds"
    and cat: "cat_empty = RuntimeError \<or> has_tensor batch"
  defines "S \<equiv> (if multiscale ds \<and> batch_count ds mod 10 = 0
                 then random_choice rnd (py_range 320 (608 + 1) 32) else img_size ds)"
  shows "\<exists>stacked targets.
           collate_fn cat_empty ds rnd batch
             = (Inr (map fst batch, stacked, targets),
                ds\<lparr>img_size := S, batch_count := batch_count ds + 1\<rparr>)
         \<and> collate_targets cat_empty (map (\<lambda>it. snd (snd it)) batch) = Inr targets
         \<and> length stacked = length batch
         \<and> list_all (has_shape c S S) stacked
         \<and> map Inr stacked = map (\<lambda>it. resize (fst (snd it)) S) batch"
proof -
  let ?imgs = "map (\<lambda>it. fst (snd it)) batch"
  from ok have ne: "batch \<noteq> []" and c: "0 < c"
    and all: "list_all (\<lambda>it. length (fst (snd it)) = c
                       \<and> 0 < img_h (fst (snd it)) \<and> 0 < img_w (fst (snd it))) batch"
    by (simp_all add: batch_ok_def)
  from cat have "cat_empty = RuntimeError \<or> list_ex (\<lambda>t. t \<noteq> None) (map (\<lambda>it. snd (snd it)) batch)"
    by (simp add: has_tensor_def list_ex_iff)
  from collate_targets_returns [OF this] obtain targets where
    t: "collate_targets cat_empty (map (\<lambda>it. snd (snd it)) batch) = Inr targets" by blast
  have S: "0 < S" using sz random_choice_pos [of rnd] by (auto simp: S_def)
  have a1: "list_all (\<lambda>img. 0 < length img \<and> 0 < img_h img \<and> 0 < img_w img) ?imgs"
    using all c by (auto simp: list_all_iff)
  have a2: "list_all (\<lambda>img. length img = c) ?imgs"
    using all by (auto simp: list_all_iff)
  from resize_all_ok [OF S a1] obtain rs where rs: "resize_all ?imgs S = Inr rs" by blast
  from resize_all_shapes [OF rs a2]
  have len: "length rs = length batch"
    and sh: "list_all (\<lambda>r. has_shape c S S r \<and> shape3 r = (c, S, S)) rs"
    by simp_all
  from len ne have "rs \<noteq> []" by auto
  moreover from sh have "list_all (\<lambda>r. shape3 r = (c, S, S)) rs" by (simp add: list_all_iff)
  ultimately have st: "torch_stack rs = Inr rs" by (rule torch_stack_ok)
  have "collate_fn cat_empty ds rnd batch
          = (Inr (map fst batch, rs, targets),
             ds\<lparr>img_size := S, batch_count := batch_count ds + 1\<rparr>)"
    using ne rs st t by (auto simp: collate_fn_def Let_def S_def)
  moreover from sh have "list_all (has_shape c S S) rs" by (simp add: list_all_iff)
  moreover have "map Inr rs = map (\<lambda>it. resize (fst (snd it)) S) batch"
    using resize_all_Inr [OF rs] by (simp add: comp_def)
  ultimately show ?thesis using len t by blast
qed

subsection \<open>Collation: one resolution per call\<close>

text \<open>
  Claim C7. In one call of \<open>collate_fn\<close> that returns, every image of the batch is
  resized with the same resolution \<open>S\<close>, the value of \<open>img_size\<close> after the call; the
  stacked output has one \<open>C \<times> S \<times> S\<close> image per item of the batch; and \<open>S\<close> differs
  from the resolution before the call only when \<open>multiscale\<close> is set and the batch counter is
  a multiple of 10.
\<close>

theorem collate_fn_one_resolution:
  assumes "collate_fn cat_empty ds rnd batch = (Inr (paths, stacked, targets), ds')"
  shows "length stacked = length batch
       \<and> map Inr stacked = map (\<lambda>it. resize (fst (snd it)) (img_size ds')) batch
       \<and> list_all (has_shape (length (fst (snd (hd batch)))) (img_size ds') (img_size ds')) stacked
       \<and> img_size ds' = (if multiscale ds \<and> batch_count ds mod 10 = 0
                         then random_choice rnd (py_range 320 (608 + 1) 32) else img_size ds)"
proof -
  let ?imgs = "map (\<lambda>it. fst (snd it)) batch"
  let ?S = "img_size ds'"
  note f = collate_fn_Inr [OF assms]
  from f(4,7) have rs: "resize_all ?imgs ?S = Inr stacked" by simp
  from resize_all_Inr [OF rs]
  have m: "map Inr stacked = map (\<lambda>it. resize (fst (snd it)) ?S) batch"
    by (simp add: comp_def)
  then have "length (map Inr stacked :: (error + image) list)
               = length (map (\<lambda>it. resize (fst (snd it)) ?S) batch)" by simp
  then have len: "length stacked = length batch" by simp
  have st: "torch_stack stacked = Inr stacked" by (rule f(8))
  have eq: "list_all (\<lambda>t. shape3 t = shape3 (hd stacked)) stacked"
    using st by (rule torch_stack_shapes)
  have each: "has_shape (length (fst (snd (batch ! i)))) ?S ?S (stacked ! i)
              \<and> shape3 (stacked ! i) = (length (fst (snd (batch ! i))), ?S, ?S)"
    if "i < length batch" for i
  proof -
    from m have "map Inr stacked ! i = map (\<lambda>it. resize (fst (snd it)) ?S) batch ! i" by simp
    with that len have "resize (fst (snd (batch ! i))) ?S = Inr (stacked ! i)" by simp
    then show ?thesis using resize_Inr by blast
  qed
  from f(1) len have ne: "stacked \<noteq> []" "0 < length batch" by auto
  have hd0: "shape3 (hd stacked) = (length (fst (snd (hd batch))), ?S, ?S)"
    using each [of 0] ne by (simp add: hd_conv_nth f(1))
  have "has_shape (length (fst (snd (hd batch)))) ?S ?S r" if "r \<in> set stacked" for r
  proof -
    from that obtain i where i: "i < length stacked" "r = stacked ! i"
      by (auto simp: in_set_conv_nth)
    from eq that have "shape3 r = shape3 (hd stacked)" by (simp add: list_all_iff)
    with hd0 each [of i] i len show ?thesis by simp
  qed
  then have "list_all (has_shape (length (fst (snd (hd batch)))) ?S ?S) stacked"
    by (simp add: list_all_iff)
  with len m f(4) show ?thesis by simp
qed

theorem collate_fn_one_resolution_witness:
  "\<exists>paths stacked targets ds'.
      collate_fn ValueError (ListDataset_init [''a\<newline>'', ''b\<newline>''] 416 True True True) 3
        [(''a'', [[[0, 1]]], Some [\<lparr>t0 = 0, t1 = 7, t2 = 1 / 2, t3 = 1 / 2, t4 = 1 / 5, t5 = 1 / 5\<rparr>]),
         (''b'', [[[0], [1]]], None)]
        = (Inr (paths, stacked, targets), ds')
    \<and> length stacked = 2 \<and> img_size ds' = 416 \<and> list_all (has_shape 1 416 416) stacked"
proof -
  let ?ds = "ListDataset_init [''a\<newline>'', ''b\<newline>''] 416 True True True"
  let ?batch = "[(''a'', [[[0, 1]]],
                  Some [\<lparr>t0 = 0, t1 = 7, t2 = 1 / 2, t3 = 1 / 2, t4 = 1 / 5, t5 = 1 / 5\<rparr>]),
                 (''b'', [[[0], [1]]], None)] :: item list"
  have ok: "batch_ok 1 ?batch" by (simp add: batch_ok_def img_h_def img_w_def)
  have cat: "ValueError = RuntimeError \<or> has_tensor ?batch" by (simp add: has_tensor_def)
  have d: "multiscale ?ds" "batch_count ?ds = 0" by (simp_all add: ListDataset_init_def)
  then have "multiscale ?ds \<and> batch_count ?ds mod 10 = 0 \<or> 0 < img_size ?ds" by simp
  from collate_fn_ok [OF ok this cat, of 3]
  obtain stacked targets ds' where
    e: "collate_fn ValueError ?ds 3 ?batch = (Inr (map fst ?batch, stacked, targets), ds')"
    by blast
  have c: "random_choice 3 (py_range 320 (608 + 1) 32) = 416"
    by (simp add: random_choice_def py_range_sizes)
  note t = collate_fn_one_resolution [OF e]
  have "img_size ds' = (if multiscale ?ds \<and> batch_count ?ds mod 10 = 0
                         then random_choice 3 (py_range 320 (608 + 1) 32) else img_size ?ds)"
    using t by blast
  then have s: "img_size ds' = 416" using d c by simp
  have "length stacked = length ?batch" using t by blast
  then have l: "length stacked = 2" by simp
  have "list_all (has_shape (length (fst (snd (hd ?batch)))) (img_size ds') (img_size ds')) stacked"
    using t by blast
  then have "list_all (has_shape 1 416 416) stacked" by (simp add: s)
  with e s l show ?thesis by blast
qed

subsection \<open>Collation: a batch without annotations\<close>

lemma collate_fn_no_annotations_caught:
  assumes "batch_ok c batch"
    and "list_all (\<lambda>it. snd (snd it) = None) batch"
    and "multiscale ds \<and> batch_count ds mod 10 = 0 \<or> 0 < img_size ds"
  shows "\<exists>stacked ds'.
           collate_fn RuntimeError ds rnd batch = (Inr (map fst batch, stacked, None), ds')
         \<and> length stacked = length batch
         \<and> map Inr stacked = map (\<lambda>it. resize (fst (snd it)) (img_size ds')) batch
         \<and> list_all (has_shape c (img_size ds') (img_size ds')) stacked
         \<and> img_size ds' = (if multiscale ds \<and> batch_count ds mod 10 = 0
                           then random_choice rnd (py_range 320 (608 + 1) 32) else img_size ds)
         \<and> batch_count ds' = batch_count ds + 1"
proof -
  let ?S = "if multiscale ds \<and> batch_count ds mod 10 = 0
            then random_choice rnd (py_range 320 (608 + 1) 32) else img_size ds"
  let ?ds' = "ds\<lparr>img_size := ?S, batch_count := batch_count ds + 1\<rparr>"
  have "filter (\<lambda>boxes. boxes \<noteq> None) (map (\<lambda>it. snd (snd it)) batch) = []"
    using assms(2) by (simp add: list_all_iff filter_empty_conv)
  from collate_targets_nothing_kept [OF this, of RuntimeError]
  have n: "collate_targets RuntimeError (map (\<lambda>it. snd (snd it)) batch) = Inr None" by simp
  have "RuntimeError = RuntimeError \<or> has_tensor batch" by simp
  from collate_fn_ok [OF assms(1,3) this, of rnd] obtain stacked targets where
    e: "collate_fn RuntimeError ds rnd batch = (Inr (map fst batch, stacked, targets), ?ds')"
    and t: "collate_targets RuntimeError (map (\<lambda>it. snd (snd it)) batch) = Inr targets"
    and l: "length stacked = length batch"
    and h: "list_all (has_shape c ?S ?S) stacked"
    and m: "map Inr stacked = map (\<lambda>it. resize (fst (snd it)) ?S) batch"
    by blast
  from n t have "targets = None" by simp
  moreover have "img_size ?ds' = ?S" "batch_count ?ds' = batch_count ds + 1" by simp_all
  ultimately have
    "collate_fn RuntimeError ds rnd batch = (Inr (map fst batch, stacked, None), ?ds')
     \<and> length stacked = length batch
     \<and> map Inr stacked = map (\<lambda>it. resize (fst (snd it)) (img_size ?ds')) batch
     \<and> list_all (has_shape c (img_size ?ds') (img_size ?ds')) stacked
     \<and> img_size ?ds' = ?S
     \<and> batch_count ?ds' = batch_count ds + 1"
    using e l h m by simp
  then show ?thesis by blast
qed

lemma collate_fn_no_annotations_raised:
  assumes "batch \<noteq> []"
    and "list_all (\<lambda>it. snd (snd it) = None) batch"
    and "cat_empty \<noteq> RuntimeError"
  shows "collate_fn cat_empty ds rnd batch = (Inl cat_empty, ds)"
proof -
  have "filter (\<lambda>boxes. boxes \<noteq> None) (map (\<lambda>it. snd (snd it)) batch) = []"
    using assms(2) by (simp add: list_all_iff filter_empty_conv)
  from collate_targets_nothing_kept [OF this, of cat_empty] assms(3)
  have "collate_targets cat_empty (map (\<lambda>it. snd (snd it)) batch) = Inl cat_empty" by simp
  with assms(1) show ?thesis by (simp add: collate_fn_def)
qed

text \<open>
  Claim C9 says that a batch whose items all carry \<open>None\<close> is collated without failure
  into the stacked images and the annotation output \<open>None\<close>. The \<open>except\<close> clause
  that gives \<open>None\<close> catches \<open>RuntimeError\<close> only: where \<open>torch.cat\<close> of an empty
  list raises \<open>RuntimeError\<close> the claim holds (first lemma above), and where it raises
  \<open>ValueError\<close> that exception leaves \<open>collate_fn\<close> before the images are resized,
  with the dataset object unchanged.
\<close>

theorem collate_fn_all_None_raises:
  "collate_fn ValueError (ListDataset_init [''a\<newline>'', ''b\<newline>''] 416 True True True) 0
     [(''a'', [[[0, 1]]], None), (''b'', [[[0], [1]]], None)]
   = (Inl ValueError, ListDataset_init [''a\<newline>'', ''b\<newline>''] 416 True True True)"
  by (rule collate_fn_no_annotations_raised) simp_all

subsection \<open>Collation: batch indices\<close>

text \<open>
  Claim C1, as amended. For every call of \<open>collate_fn\<close> that returns, with \<open>sets\<close> the
  annotation sets of the batch that are not \<open>None\<close>, in order: every row of the \<open>i\<close>-th
  of them appears in the output with \<open>i\<close> in column 0 (its position among the kept sets,
  not the item's position in the batch) and is otherwise unchanged; the output is \<open>None\<close>
  when no set is kept. The batch indices that occur in the output are the positions of the
  kept sets that have at least one row; they are \<open>0, \<dots>, K - 1\<close> when each of the \<open>K\<close>
  kept sets has a row. A kept set without rows takes up a position.
\<close>

theorem collate_fn_batch_index:
  assumes c: "collate_fn cat_empty ds rnd batch = (Inr (paths, stacked, targets), ds')"
    and s: "sets = map the (filter (\<lambda>boxes. boxes \<noteq> None) (map (\<lambda>it. snd (snd it)) batch))"
  shows "(sets = [] \<longrightarrow> targets = None)
       \<and> (sets \<noteq> [] \<longrightarrow>
            (\<exists>parts. targets = Some (concat parts) \<and> length parts = length sets
               \<and> (\<forall>i<length sets. parts ! i = map (\<lambda>r. r\<lparr>t0 := of_nat i\<rparr>) (sets ! i))))
       \<and> t0 ` set (case targets of None \<Rightarrow> [] | Some rows \<Rightarrow> rows)
           = of_nat ` {i. i < length sets \<and> sets ! i \<noteq> []}
       \<and> (list_all (\<lambda>boxes. boxes \<noteq> []) sets \<longrightarrow>
            t0 ` set (case targets of None \<Rightarrow> [] | Some rows \<Rightarrow> rows) = of_nat ` {0..<length sets})"
proof -
  let ?ts = "map (\<lambda>it. snd (snd it)) batch"
  let ?parts = "map (\<lambda>(i, boxes). map (\<lambda>r. r\<lparr>t0 := of_nat i\<rparr>) boxes) (enumerate 0 sets)"
  have t: "collate_targets cat_empty ?ts = Inr targets" using c by (rule collate_fn_Inr(3))
  note o = collate_targets_Inr [OF t]
  have e: "sets = [] \<longleftrightarrow> filter (\<lambda>boxes. boxes \<noteq> None) ?ts = []" by (simp add: s)
  have 1: "sets = [] \<longrightarrow> targets = None"
    using e o by simp
  have "targets = Some (concat ?parts)" if "sets \<noteq> []"
    using that e o by (simp add: concat_enumerate_renumber s)
  moreover have "length ?parts = length sets" by simp
  moreover have "\<forall>i<length sets. ?parts ! i = map (\<lambda>r. r\<lparr>t0 := of_nat i\<rparr>) (sets ! i)"
    by (simp add: nth_enumerate_eq)
  ultimately have 2: "sets \<noteq> [] \<longrightarrow>
            (\<exists>parts. targets = Some (concat parts) \<and> length parts = length sets
               \<and> (\<forall>i<length sets. parts ! i = map (\<lambda>r. r\<lparr>t0 := of_nat i\<rparr>) (sets ! i)))"
    by blast
  have r: "(case targets of None \<Rightarrow> [] | Some rows \<Rightarrow> rows) = renumber 0 sets"
    using collate_targets_rows [OF t] by (simp only: s)
  have 3: "t0 ` set (case targets of None \<Rightarrow> [] | Some rows \<Rightarrow> rows)
             = of_nat ` {i. i < length sets \<and> sets ! i \<noteq> []}"
    by (simp add: r t0_renumber)
  have "{i. i < length sets \<and> sets ! i \<noteq> []} = {0..<length sets}"
    if "list_all (\<lambda>boxes. boxes \<noteq> []) sets"
    using that by (auto simp: list_all_length)
  with 3 have 4: "list_all (\<lambda>boxes. boxes \<noteq> []) sets \<longrightarrow>
            t0 ` set (case targets of None \<Rightarrow> [] | Some rows \<Rightarrow> rows) = of_nat ` {0..<length sets}"
    by simp
  from 1 2 3 4 show ?thesis by blast
qed

theorem collate_fn_batch_index_witness:
  "\<exists>paths stacked targets ds'.
      collate_fn ValueError (ListDataset_init [''a\<newline>''] 416 True True True) 3
        [(''a'', [[[0, 1]]], Some [\<lparr>t0 = 0, t1 = 7, t2 = 1 / 2, t3 = 1 / 2, t4 = 1 / 5, t5 = 1 / 5\<rparr>]),
         (''b'', [[[0], [1]]], None),
         (''c'', [[[0, 1]]], Some [\<lparr>t0 = 0, t1 = 8, t2 = 1 / 4, t3 = 1 / 4, t4 = 1 / 5, t5 = 1 / 5\<rparr>,
                                    \<lparr>t0 = 0, t1 = 9, t2 = 3 / 4, t3 = 3 / 4, t4 = 1 / 5, t5 = 1 / 5\<rparr>])]
        = (Inr (paths, stacked, targets), ds')
    \<and> t0 ` set (case targets of None \<Rightarrow> [] | Some rows \<Rightarrow> rows) = of_nat ` {0..<2}"
proof -
  let ?ds = "ListDataset_init [''a\<newline>''] 416 True True True"
  let ?r7 = "\<lparr>t0 = 0, t1 = 7, t2 = 1 / 2, t3 = 1 / 2, t4 = 1 / 5, t5 = 1 / 5\<rparr> :: target"
  let ?r8 = "\<lparr>t0 = 0, t1 = 8, t2 = 1 / 4, t3 = 1 / 4, t4 = 1 / 5, t5 = 1 / 5\<rparr> :: target"
  let ?r9 = "\<lparr>t0 = 0, t1 = 9, t2 = 3 / 4, t3 = 3 / 4, t4 = 1 / 5, t5 = 1 / 5\<rparr> :: target"
  let ?batch = "[(''a'', [[[0, 1]]], Some [?r7]), (''b'', [[[0], [1]]], None),
                 (''c'', [[[0, 1]]], Some [?r8, ?r9])] :: item list"
  have ok: "batch_ok 1 ?batch" by (simp add: batch_ok_def img_h_def img_w_def)
  have cat: "ValueError = RuntimeError \<or> has_tensor ?batch" by (simp add: has_tensor_def)
  have "multiscale ?ds \<and> batch_count ?ds mod 10 = 0 \<or> 0 < img_size ?ds"
    by (simp add: ListDataset_init_def)
  from collate_fn_ok [OF ok this cat, of 3]
  obtain stacked targets ds' where
    e: "collate_fn ValueError ?ds 3 ?batch = (Inr (map fst ?batch, stacked, targets), ds')"
    by blast
  have s: "[[?r7], [?r8, ?r9]]
             = map the (filter (\<lambda>boxes. boxes \<noteq> None) (map (\<lambda>it. snd (snd it)) ?batch))"
    by simp
  have "list_all (\<lambda>boxes. boxes \<noteq> []) [[?r7], [?r8, ?r9]]" by simp
  moreover have "length [[?r7], [?r8, ?r9]] = 2" by simp
  ultimately have "t0 ` set (case targets of None \<Rightarrow> [] | Some rows \<Rightarrow> rows) = of_nat ` {0..<2}"
    using collate_fn_batch_index [OF e s] by metis
  with e show ?thesis by blast
qed

text \<open>
  The claim as stated, that the batch indices are contiguous over the images that
  contributed a box, fails when a kept set has no row (an empty label file): of three items
  the first and the third have a box, and their rows get 0 and 2.
\<close>

theorem collate_fn_batch_index_counterexample:
  "fst (collate_fn ValueError (ListDataset_init [''a\<newline>''] 1 False False True) 0
     [(''a'', [[[0]]], Some [\<lparr>t0 = 0, t1 = 7, t2 = 1 / 2, t3 = 1 / 2, t4 = 1 / 5, t5 = 1 / 5\<rparr>]),
      (''b'', [[[0]]], Some []),
      (''c'', [[[0]]], Some [\<lparr>t0 = 0, t1 = 8, t2 = 1 / 4, t3 = 1 / 4, t4 = 1 / 5, t5 = 1 / 5\<rparr>])])
   = Inr ([''a'', ''b'', ''c''], [[[[0]]], [[[0]]], [[[0]]]],
          Some [\<lparr>t0 = 0, t1 = 7, t2 = 1 / 2, t3 = 1 / 2, t4 = 1 / 5, t5 = 1 / 5\<rparr>,
                \<lparr>t0 = 2, t1 = 8, t2 = 1 / 4, t3 = 1 / 4, t4 = 1 / 5, t5 = 1 / 5\<rparr>])"
  by (simp add: collate_fn_def collate_targets_def torch_cat_def torch_stack_def shape3_def
        ListDataset_init_def Let_def resize_def bilinear_def src_index_def img_h_def img_w_def
        enumerate_eq_zip upt_rec)

subsection \<open>Label files without rows\<close>







subsection \<open>Collation: the resize schedule\<close>

lemma collate_calls_steps:
  assumes "list_all (\<lambda>(rnd, batch). batch_ok c batch
                                  \<and> (cat_empty = RuntimeError \<or> has_tensor batch)) calls"
    and "multiscale ds"
    and "batch_count ds mod 10 = 0 \<or> img_size ds \<in> Z"
    and Z: "\<And>rnd. random_choice rnd (py_range 320 (608 + 1) 32) \<in> Z" "\<And>z. z \<in> Z \<Longrightarrow> 0 < z"
  shows "\<exists>states.
           collate_calls cat_empty ds calls = Inr states \<and> length states = length calls
         \<and> (\<forall>n<length calls.
                batch_count (states ! n) = batch_count ds + n + 1
              \<and> img_size (states ! n)
                  = (if (batch_count ds + n) mod 10 = 0
                     then random_choice (fst (calls ! n)) (py_range 320 (608 + 1) 32)
                     else img_size ((ds # states) ! n))
              \<and> img_size (states ! n) \<in> Z)"
  using assms(1-3)
proof (induction calls arbitrary: ds)
  case Nil
  then show ?case by simp
next
  case (Cons call calls)
  obtain rnd batch where call: "call = (rnd, batch)" by (cases call)
  define S where "S = (if multiscale ds \<and> batch_count ds mod 10 = 0
                       then random_choice rnd (py_range 320 (608 + 1) 32) else img_size ds)"
  define ds1 where "ds1 = ds\<lparr>img_size := S, batch_count := batch_count ds + 1\<rparr>"
  from Cons.prems(1) call have ok: "batch_ok c batch"
    and cat: "cat_empty = RuntimeError \<or> has_tensor batch"
    and oks: "list_all (\<lambda>(rnd, batch). batch_ok c batch
                                  \<and> (cat_empty = RuntimeError \<or> has_tensor batch)) calls" by simp_all
  have S: "S \<in> Z"
    unfolding S_def using Cons.prems(2,3) Z(1) [of rnd] by (cases "batch_count ds mod 10 = 0") auto
  then have pos: "0 < S" by (rule Z(2))
  have S0: "S = (if batch_count ds mod 10 = 0
                 then random_choice rnd (py_range 320 (608 + 1) 32) else img_size ds)"
    unfolding S_def using Cons.prems(2) by (cases "batch_count ds mod 10 = 0") simp_all
  have "multiscale ds \<and> batch_count ds mod 10 = 0 \<or> 0 < img_size ds"
  proof (cases "batch_count ds mod 10 = 0")
    case True
    with Cons.prems(2) show ?thesis by blast
  next
    case False
    with Cons.prems(3) have "img_size ds \<in> Z" by blast
    then have "0 < img_size ds" by (rule Z(2))
    then show ?thesis by blast
  qed
  from collate_fn_ok [OF ok this cat, of rnd] obtain stacked targets where
    step: "collate_fn cat_empty ds rnd batch = (Inr (map fst batch, stacked, targets), ds1)"
    unfolding ds1_def S_def by blast
  have m1: "multiscale ds1" using Cons.prems(2) by (simp add: ds1_def)
  have b1: "batch_count ds1 = batch_count ds + 1" by (simp add: ds1_def)
  have s1: "img_size ds1 = S" by (simp add: ds1_def)
  have i1: "batch_count ds1 mod 10 = 0 \<or> img_size ds1 \<in> Z"
    using S s1 by simp
  from Cons.IH [OF oks m1 i1] obtain states where
    run: "collate_calls cat_empty ds1 calls = Inr states" and len: "length states = length calls"
    and each: "\<And>n. n < length calls \<Longrightarrow>
                batch_count (states ! n) = batch_count ds1 + n + 1
              \<and> img_size (states ! n)
                  = (if (batch_count ds1 + n) mod 10 = 0
                     then random_choice (fst (calls ! n)) (py_range 320 (608 + 1) 32)
                     else img_size ((ds1 # states) ! n))
              \<and> img_size (states ! n) \<in> Z"
    by blast
  have r: "collate_calls cat_empty ds (call # calls) = Inr (ds1 # states)"
    by (simp only: call collate_calls.simps step run prod.case sum.case)
  have "batch_count ((ds1 # states) ! n) = batch_count ds + n + 1
      \<and> img_size ((ds1 # states) ! n)
          = (if (batch_count ds + n) mod 10 = 0
             then random_choice (fst ((call # calls) ! n)) (py_range 320 (608 + 1) 32)
             else img_size ((ds # ds1 # states) ! n))
      \<and> img_size ((ds1 # states) ! n) \<in> Z"
    if n: "n < length (call # calls)" for n
  proof (cases n)
    case 0
    have "img_size ds1 = (if batch_count ds mod 10 = 0
                          then random_choice (fst call) (py_range 320 (608 + 1) 32)
                          else img_size ds)"
      unfolding s1 S0 call by (simp only: fst_conv)
    then show ?thesis using b1 S s1 by (simp only: 0 nth_Cons_0 add_0_right)
  next
    case (Suc m)
    with n have "m < length calls" by simp
    note e = each [OF this]
    have x: "batch_count ds1 + m = batch_count ds + n" by (simp add: b1 Suc)
    have y: "(ds1 # states) ! n = states ! m" "(ds # ds1 # states) ! n = (ds1 # states) ! m"
      "(call # calls) ! n = calls ! m"
      by (simp_all add: Suc)
    from e show ?thesis unfolding x y .
  qed
  moreover have "length (ds1 # states) = length (call # calls)" using len by simp
  ultimately show ?case using r by blast
qed

text \<open>
  Claim C6. A dataset is built with \<open>multiscale\<close> enabled and \<open>collate_fn\<close> is called
  on successive stackable batches, each with an annotation tensor for \<open>torch.cat\<close>
  (or on any stackable batches where \<open>torch.cat\<close> of an empty list raises
  \<open>RuntimeError\<close>). Before the first call the resolution is the configured
  \<open>img_size\<close> and the batch counter is 0. Every call returns; after call number \<open>n\<close>
  (counted from 0) the counter is \<open>n + 1\<close>; the resolution of call \<open>n\<close> is a fresh
  \<open>random.choice\<close> from \<open>range(320, 609, 32)\<close> when \<open>n mod 10 = 0\<close> and the
  resolution of call \<open>n - 1\<close> otherwise; it is always one of 320, 352, \<dots>, 608.
\<close>

theorem collate_calls_schedule:
  assumes "list_all (\<lambda>(rnd, batch). batch_ok c batch
                                  \<and> (cat_empty = RuntimeError \<or> has_tensor batch)) calls"
    and "ds0 = ListDataset_init lines sz aug True nrm"
  shows "img_size ds0 = sz \<and> batch_count ds0 = 0
       \<and> (\<exists>states.
             collate_calls cat_empty ds0 calls = Inr states \<and> length states = length calls
           \<and> (\<forall>n<length calls.
                  batch_count (states ! n) = n + 1
                \<and> img_size (states ! n)
                    = (if n mod 10 = 0
                       then random_choice (fst (calls ! n)) (py_range 320 (608 + 1) 32)
                       else img_size (states ! (n - 1)))
                \<and> img_size (states ! n) \<in> set [320, 352, 384, 416, 448, 480, 512, 544, 576, 608]))"
proof -
  have d: "img_size ds0 = sz" "batch_count ds0 = 0" "multiscale ds0"
    by (simp_all add: assms(2) ListDataset_init_def)
  define Z where "Z = set [320, 352, 384, 416, 448, 480, 512, 544, 576, 608 :: nat]"
  have z1: "random_choice rnd (py_range 320 (608 + 1) 32) \<in> Z" for rnd
    unfolding Z_def by (rule random_choice_sizes)
  have z2: "0 < z" if "z \<in> Z" for z using that unfolding Z_def by auto
  from d have "batch_count ds0 mod 10 = 0 \<or> img_size ds0 \<in> Z" by simp
  from collate_calls_steps [OF assms(1) d(3) this z1 z2] obtain states where
    run: "collate_calls cat_empty ds0 calls = Inr states" and len: "length states = length calls"
    and each: "\<And>n. n < length calls \<Longrightarrow>
                batch_count (states ! n) = batch_count ds0 + n + 1
              \<and> img_size (states ! n)
                  = (if (batch_count ds0 + n) mod 10 = 0
                     then random_choice (fst (calls ! n)) (py_range 320 (608 + 1) 32)
                     else img_size ((ds0 # states) ! n))
              \<and> img_size (states ! n) \<in> Z"
    by blast
  have "batch_count (states ! n) = n + 1
      \<and> img_size (states ! n)
          = (if n mod 10 = 0
             then random_choice (fst (calls ! n)) (py_range 320 (608 + 1) 32)
             else img_size (states ! (n - 1)))
      \<and> img_size (states ! n) \<in> Z"
    if "n < length calls" for n
  proof -
    note e = each [OF that, unfolded d(2) add_0]
    show ?thesis
    proof (cases "n mod 10 = 0")
      case True
      with e z1 [of "fst (calls ! n)"] show ?thesis by auto
    next
      case False
      then have "(ds0 # states) ! n = states ! (n - 1)" by (cases n) auto
      with e False show ?thesis by auto
    qed
  qed
  with run len d(1,2) show ?thesis unfolding Z_def by blast
qed

theorem collate_calls_schedule_witness:
  "\<exists>states.
      collate_calls ValueError (ListDataset_init [''a\<newline>''] 100 True True True)
        (map (\<lambda>rnd. (rnd, [(''a'', [[[0]]],
                               Some [\<lparr>t0 = 0, t1 = 7, t2 = 1 / 2, t3 = 1 / 2, t4 = 1 / 5, t5 = 1 / 5\<rparr>])]))
             [3, 0, 0, 0, 0, 0, 0, 0, 0, 0, 5, 0])
        = Inr states
    \<and> length states = 12
    \<and> batch_count (states ! 0) = 1 \<and> img_size (states ! 0) = 416
    \<and> batch_count (states ! 9) = 10 \<and> img_size (states ! 9) = img_size (states ! 8)
    \<and> batch_count (states ! 10) = 11 \<and> img_size (states ! 10) = 480
    \<and> batch_count (states ! 11) = 12 \<and> img_size (states ! 11) = img_size (states ! 10)"
proof -
  let ?b = "[(''a'', [[[0]]],
              Some [\<lparr>t0 = 0, t1 = 7, t2 = 1 / 2, t3 = 1 / 2, t4 = 1 / 5, t5 = 1 / 5\<rparr>])] :: item list"
  let ?calls = "map (\<lambda>rnd. (rnd, ?b)) [3, 0, 0, 0, 0, 0, 0, 0, 0, 0, 5, 0 :: nat]"
  have ok: "list_all (\<lambda>(rnd, batch). batch_ok 1 batch
                         \<and> (ValueError = RuntimeError \<or> has_tensor batch)) ?calls"
    by (simp add: batch_ok_def has_tensor_def img_h_def img_w_def)
  have l12: "length ?calls = 12" by simp
  from collate_calls_schedule [OF ok refl, of "[''a\<newline>'']" 100 True True]
  obtain states where
    run: "collate_calls ValueError (ListDataset_init [''a\<newline>''] 100 True True True) ?calls
            = Inr states"
    and len: "length states = length ?calls"
    and each: "\<And>n. n < length ?calls \<Longrightarrow>
                  batch_count (states ! n) = n + 1
                \<and> img_size (states ! n)
                    = (if n mod 10 = 0
                       then random_choice (fst (?calls ! n)) (py_range 320 (608 + 1) 32)
                       else img_size (states ! (n - 1)))"
    by blast
  have c3: "random_choice 3 (py_range 320 (608 + 1) 32) = 416"
    and c5: "random_choice 5 (py_range 320 (608 + 1) 32) = 480"
    by (simp_all add: random_choice_def py_range_sizes)
  have f0: "fst (?calls ! 0) = 3" and f10: "fst (?calls ! 10) = 5" by simp_all
  have "batch_count (states ! 0) = 1 \<and> img_size (states ! 0) = 416"
    using each [of 0] c3 f0 unfolding l12 by simp
  moreover have "batch_count (states ! 9) = 10 \<and> img_size (states ! 9) = img_size (states ! 8)"
    using each [of 9] unfolding l12 by simp
  moreover have "batch_count (states ! 10) = 11 \<and> img_size (states ! 10) = 480"
    using each [of 10] c5 f10 unfolding l12 by simp
  moreover have "batch_count (states ! 11) = 12 \<and> img_size (states ! 11) = img_size (states ! 10)"
    using each [of 11] unfolding l12 by simp
  moreover have "length states = 12" using len by simp
  ultimately show ?thesis using run by blast
qed

end
